theory Spec2Isabelle
  imports Complex_Main
begin

section \<open>The mutation queue (services/syncQueue.ts)\<close>

text \<open>
  The queue is one JSON blob under the storage key \<^verbatim>\<open>@boxfinder_sync_queue\<close>.
  A blob that was never written reads as \<^verbatim>\<open>null\<close> and is treated as the empty
  list by \<^verbatim>\<open>getQueue\<close>. The store itself is taken to be reliable: the
  \<^verbatim>\<open>catch\<close> branches of \<^verbatim>\<open>getQueue\<close> and \<^verbatim>\<open>saveQueue\<close> are reached only when
  the storage layer rejects, which is outside this model. The listeners of the
  queue only receive the pending count and are left out.

  The field \<^verbatim>\<open>data\<close> has type \<^verbatim>\<open>any\<close>; the callers pass \<^verbatim>\<open>null\<close> or a flat object.
  A stored payload went through \<^verbatim>\<open>JSON.stringify\<close>, so its properties carry JSON
  values. An argument still in memory may also carry a property whose value is
  \<^verbatim>\<open>undefined\<close> (the screens build such objects); \<^verbatim>\<open>JSON.stringify\<close> drops
  those properties. An object is a finite map from property names to values.

  Timestamps are kept as the millisecond count that \<^verbatim>\<open>new Date(ts).getTime()\<close>
  recovers from the ISO string written by \<^verbatim>\<open>toISOString()\<close>.
\<close>

datatype SyncOperationType = CREATE | UPDATE | DELETE

datatype SyncEntityType = container | item

datatype jvalue = JNull | JBool bool | JNum int | JStr string | JArr "jvalue list"

text \<open>A stored payload, and an argument in memory (\<open>Some None\<close>: present, \<^verbatim>\<open>undefined\<close>).\<close>

datatype payload = PNull | PObj "string \<rightharpoonup> jvalue"

datatype js_data = DNull | DObj "string \<rightharpoonup> jvalue option"

record SyncOperation =
  op_id :: string
  op_type :: SyncOperationType
  entity :: SyncEntityType
  entityId :: string
  data :: payload
  timestamp :: int
  retries :: nat

text \<open>\<^verbatim>\<open>Array.prototype.findIndex\<close>, with \<^verbatim>\<open>-1\<close> rendered as \<open>None\<close>.\<close>

primrec findIndex :: "('a \<Rightarrow> bool) \<Rightarrow> 'a list \<Rightarrow> nat option" where
  "findIndex P [] = None"
| "findIndex P (x # xs) =
     (if P x then Some 0
      else (case findIndex P xs of None \<Rightarrow> None | Some i \<Rightarrow> Some (Suc i)))"

text \<open>\<^verbatim>\<open>queue.splice(i, 1)\<close>.\<close>

definition splice1 :: "nat \<Rightarrow> 'a list \<Rightarrow> 'a list" where
  "splice1 i xs = take i xs @ drop (Suc i) xs"

text \<open>Object spread of a stored payload and of an argument: \<^verbatim>\<open>{...null}\<close> is empty.\<close>

fun spread :: "payload \<Rightarrow> (string \<rightharpoonup> jvalue)" where
  "spread PNull = Map.empty"
| "spread (PObj m) = m"

fun spread_js :: "js_data \<Rightarrow> (string \<rightharpoonup> jvalue option)" where
  "spread_js DNull = Map.empty"
| "spread_js (DObj m) = m"

text \<open>\<^verbatim>\<open>{...existing.data, ...data}\<close>: the properties of the second operand win.\<close>

definition shallow_merge :: "payload \<Rightarrow> js_data \<Rightarrow> js_data" where
  "shallow_merge a b = DObj ((\<lambda>k. map_option Some (spread a k)) ++ spread_js b)"

text \<open>What \<^verbatim>\<open>JSON.parse(JSON.stringify(d))\<close> leaves of a payload.\<close>

definition stringify :: "js_data \<Rightarrow> payload" where
  "stringify d =
     (case d of
        DNull \<Rightarrow> PNull
      | DObj m \<Rightarrow> PObj (\<lambda>k. case m k of Some (Some v) \<Rightarrow> Some v | _ \<Rightarrow> None))"

definition getQueue :: "SyncOperation list option \<Rightarrow> SyncOperation list" where
  "getQueue blob = (case blob of None \<Rightarrow> [] | Some q \<Rightarrow> q)"

definition saveQueue :: "SyncOperation list \<Rightarrow> SyncOperation list option" where
  "saveQueue q = Some q"

definition same_entity :: "SyncEntityType \<Rightarrow> string \<Rightarrow> SyncOperation \<Rightarrow> bool" where
  "same_entity e eid op \<longleftrightarrow> entity op = e \<and> entityId op = eid"

text \<open>
  \<^verbatim>\<open>addToQueue(type, entity, entityId, data)\<close>. The two readings of the
  environment, the generated operation identifier and the current time, are the
  first two arguments. The result is the returned identifier and the blob that
  \<^verbatim>\<open>saveQueue\<close> writes; the payloads that the call builds are shown as they are
  after serialisation.
\<close>

definition addToQueue ::
  "string \<Rightarrow> int \<Rightarrow> SyncOperationType \<Rightarrow> SyncEntityType \<Rightarrow> string \<Rightarrow> js_data \<Rightarrow>
   SyncOperation list option \<Rightarrow> string \<times> SyncOperation list option" where
  "addToQueue newId now ty e eid d blob =
     (let operation = \<lparr>op_id = newId, op_type = ty, entity = e, entityId = eid,
                        data = stringify d, timestamp = now, retries = 0\<rparr>;
          queue = getQueue blob;
          queue' =
            (case findIndex (same_entity e eid) queue of
               Some existingIndex \<Rightarrow>
                 (let existing = queue ! existingIndex in
                  if ty = DELETE then
                    (if op_type existing = CREATE then splice1 existingIndex queue
                     else queue[existingIndex := operation])
                  else if ty = UPDATE then
                    (if op_type existing = CREATE then
                       queue[existingIndex :=
                         existing\<lparr>data := stringify (shallow_merge (data existing) d)\<rparr>]
                     else
                       queue[existingIndex :=
                         existing\<lparr>data := stringify (shallow_merge (data existing) d),
                                  timestamp := timestamp operation\<rparr>])
                  else queue)
             | None \<Rightarrow> queue @ [operation])
      in (op_id operation, saveQueue queue'))"

text \<open>One call of \<^verbatim>\<open>addToQueue\<close> with its environment readings, and a run of calls.\<close>

record enqueue_call =
  call_newId :: string
  call_now :: int
  call_type :: SyncOperationType
  call_entity :: SyncEntityType
  call_entityId :: string
  call_data :: js_data

definition enqueue :: "SyncOperation list option \<Rightarrow> enqueue_call \<Rightarrow> SyncOperation list option" where
  "enqueue blob c =
     snd (addToQueue (call_newId c) (call_now c) (call_type c) (call_entity c)
            (call_entityId c) (call_data c) blob)"


text \<open>The slot of an operation: the pair the coalescing rules key on.\<close>

definition slot :: "SyncOperation \<Rightarrow> SyncEntityType \<times> string" where
  "slot op = (entity op, entityId op)"


text \<open>The queue holds exactly one operation for the pair, and it is a CREATE.\<close>

definition pending_create :: "SyncEntityType \<Rightarrow> string \<Rightarrow> SyncOperation list \<Rightarrow> bool" where
  "pending_create e eid q =
     (case filter (same_entity e eid) q of [c] \<Rightarrow> op_type c = CREATE | _ \<Rightarrow> False)"

definition removeFromQueue :: "string \<Rightarrow> SyncOperation list option \<Rightarrow> SyncOperation list option" where
  "removeFromQueue operationId blob =
     saveQueue (filter (\<lambda>op. op_id op \<noteq> operationId) (getQueue blob))"

section \<open>The connectivity monitor (services/networkStatus.ts)\<close>

text \<open>
  Listeners are named by numbers and kept in insertion order, as a JavaScript
  \<^verbatim>\<open>Set\<close> iterates. Every function that may call listeners returns the calls it
  made, in order, as pairs of listener and value. A platform report is the field
  \<^verbatim>\<open>state.isConnected\<close>, a boolean or \<^verbatim>\<open>null\<close>.
\<close>

record NetworkStatusManager =
  listeners :: "nat list"
  isConnected :: bool
  unsubscribe :: bool

definition networkStatus :: NetworkStatusManager where
  "networkStatus = \<lparr>listeners = [], isConnected = True, unsubscribe = False\<rparr>"

text \<open>\<^verbatim>\<open>state.isConnected ?? false\<close>.\<close>

definition or_false :: "bool option \<Rightarrow> bool" where
  "or_false r = (case r of None \<Rightarrow> False | Some b \<Rightarrow> b)"

definition notifyListeners :: "NetworkStatusManager \<Rightarrow> (nat \<times> bool) list" where
  "notifyListeners m = map (\<lambda>listener. (listener, isConnected m)) (listeners m)"

text \<open>The handler that \<^verbatim>\<open>initialize\<close> passes to \<^verbatim>\<open>NetInfo.addEventListener\<close>.\<close>

definition onNetInfoEvent ::
  "bool option \<Rightarrow> NetworkStatusManager \<Rightarrow> NetworkStatusManager \<times> (nat \<times> bool) list" where
  "onNetInfoEvent report m =
     (let wasConnected = isConnected m;
          m' = m\<lparr>isConnected := or_false report\<rparr>
      in if wasConnected \<noteq> isConnected m' then (m', notifyListeners m') else (m', []))"

text \<open>The continuation of \<^verbatim>\<open>NetInfo.fetch()\<close> in \<^verbatim>\<open>initialize\<close>.\<close>

definition onInitialFetch ::
  "bool option \<Rightarrow> NetworkStatusManager \<Rightarrow> NetworkStatusManager \<times> (nat \<times> bool) list" where
  "onInitialFetch report m =
     (let m' = m\<lparr>isConnected := or_false report\<rparr> in (m', notifyListeners m'))"

text \<open>
  \<^verbatim>\<open>initialize()\<close>: nothing when the subscription exists; otherwise it subscribes
  and the seeding probe resolves with \<open>report\<close>.
\<close>

definition initialize ::
  "bool option \<Rightarrow> NetworkStatusManager \<Rightarrow> NetworkStatusManager \<times> (nat \<times> bool) list" where
  "initialize report m =
     (if unsubscribe m then (m, [])
      else onInitialFetch report (m\<lparr>unsubscribe := True\<rparr>))"

definition addListener ::
  "nat \<Rightarrow> NetworkStatusManager \<Rightarrow> NetworkStatusManager \<times> (nat \<times> bool) list" where
  "addListener listener m =
     (m\<lparr>listeners := (if listener \<in> set (listeners m) then listeners m
                        else listeners m @ [listener])\<rparr>,
      [(listener, isConnected m)])"

definition getIsConnected :: "NetworkStatusManager \<Rightarrow> bool" where
  "getIsConnected m = isConnected m"

definition checkConnection :: "bool option \<Rightarrow> NetworkStatusManager \<Rightarrow> bool \<times> NetworkStatusManager" where
  "checkConnection probe m = (or_false probe, m\<lparr>isConnected := or_false probe\<rparr>)"

text \<open>What the platform and the application can do to the monitor, one step at a time.\<close>

datatype net_event =
    Initialize "bool option"
  | NetInfoEvent "bool option"
  | AddListener nat
  | CheckConnection "bool option"

fun net_step :: "net_event \<Rightarrow> NetworkStatusManager \<Rightarrow> NetworkStatusManager \<times> (nat \<times> bool) list" where
  "net_step (Initialize report) m = initialize report m"
| "net_step (NetInfoEvent report) m = (if unsubscribe m then onNetInfoEvent report m else (m, []))"
| "net_step (AddListener l) m = addListener l m"
| "net_step (CheckConnection probe) m = (snd (checkConnection probe m), [])"

section \<open>Draining the queue (\<^verbatim>\<open>SyncQueue.processQueue\<close>)\<close>

text \<open>
  The executor is supplied by the caller. It acts on a world of its own (the
  server, the entity cache) that is threaded through the calls, and it either
  returns a boolean or raises. It does not touch the queue.
\<close>

datatype exec_result = Returned bool | Raised

record SyncQueue =
  queue_blob :: "SyncOperation list option"
  isSyncing :: bool

record 'x drain_state =
  ds_blob :: "SyncOperation list option"
  ds_success :: nat
  ds_failed :: nat
  ds_ext :: 'x
  ds_trace :: "SyncOperation list"

text \<open>
  The body of the \<^verbatim>\<open>for\<close> loop for one operation of the sorted snapshot.
  \<open>ds_trace\<close> records the operations handed to the executor, in order.
\<close>

definition process_operation ::
  "('x \<Rightarrow> SyncOperation \<Rightarrow> exec_result \<times> 'x) \<Rightarrow> SyncOperation \<Rightarrow> 'x drain_state \<Rightarrow> 'x drain_state" where
  "process_operation executor operation st =
     (let (result, x') = executor (ds_ext st) operation;
          st1 = st\<lparr>ds_ext := x', ds_trace := ds_trace st @ [operation]\<rparr>
      in case result of
           Returned ok \<Rightarrow>
             if ok then
               st1\<lparr>ds_blob := removeFromQueue (op_id operation) (ds_blob st1),
                    ds_success := ds_success st1 + 1\<rparr>
             else
               (let operation' = operation\<lparr>retries := retries operation + 1\<rparr> in
                if retries operation' \<ge> 3 then
                  st1\<lparr>ds_blob := removeFromQueue (op_id operation') (ds_blob st1),
                       ds_failed := ds_failed st1 + 1\<rparr>
                else
                  (let currentQueue = getQueue (ds_blob st1) in
                   case findIndex (\<lambda>op. op_id op = op_id operation') currentQueue of
                     Some index \<Rightarrow> st1\<lparr>ds_blob := saveQueue (currentQueue[index := operation'])\<rparr>
                   | None \<Rightarrow> st1))
         | Raised \<Rightarrow> st1\<lparr>ds_failed := ds_failed st1 + 1\<rparr>)"

primrec process_loop ::
  "('x \<Rightarrow> SyncOperation \<Rightarrow> exec_result \<times> 'x) \<Rightarrow> SyncOperation list \<Rightarrow> 'x drain_state \<Rightarrow> 'x drain_state" where
  "process_loop executor [] st = st"
| "process_loop executor (operation # rest) st =
     process_loop executor rest (process_operation executor operation st)"

record 'x drain_result =
  dr_success :: nat
  dr_failed :: nat
  dr_queue :: SyncQueue
  dr_net :: NetworkStatusManager
  dr_ext :: 'x
  dr_trace :: "SyncOperation list"

text \<open>
  \<^verbatim>\<open>processQueue(executor)\<close>. \<open>probe\<close> is what \<^verbatim>\<open>NetInfo.fetch()\<close> reports to
  \<^verbatim>\<open>checkConnection\<close>. The array sort is stable and compares the millisecond
  counts. The flag \<^verbatim>\<open>isSyncing\<close> is raised for the loop and lowered in
  \<^verbatim>\<open>finally\<close>; a state with the flag up is the state a re-entrant call sees.
\<close>

definition processQueue ::
  "('x \<Rightarrow> SyncOperation \<Rightarrow> exec_result \<times> 'x) \<Rightarrow> bool option \<Rightarrow>
   SyncQueue \<Rightarrow> NetworkStatusManager \<Rightarrow> 'x \<Rightarrow> 'x drain_result" where
  "processQueue executor probe q m x =
     (if isSyncing q then
        \<lparr>dr_success = 0, dr_failed = 0, dr_queue = q, dr_net = m, dr_ext = x, dr_trace = []\<rparr>
      else
        (let (connected, m') = checkConnection probe m in
         if \<not> connected then
           \<lparr>dr_success = 0, dr_failed = 0, dr_queue = q, dr_net = m', dr_ext = x, dr_trace = []\<rparr>
         else
           (let queue = sort_key timestamp (getQueue (queue_blob q));
                st = process_loop executor queue
                       \<lparr>ds_blob = queue_blob q, ds_success = 0, ds_failed = 0,
                        ds_ext = x, ds_trace = []\<rparr>
            in \<lparr>dr_success = ds_success st, dr_failed = ds_failed st,
                dr_queue = \<lparr>queue_blob = ds_blob st, isSyncing = False\<rparr>,
                dr_net = m', dr_ext = ds_ext st, dr_trace = ds_trace st\<rparr>)))"

text \<open>
  The results the executor gives along one pass, paired with the operations it
  was given, and whether a pair makes the loop count a failure.
\<close>

primrec exec_results ::
  "('x \<Rightarrow> SyncOperation \<Rightarrow> exec_result \<times> 'x) \<Rightarrow> SyncOperation list \<Rightarrow> 'x \<Rightarrow>
   (SyncOperation \<times> exec_result) list" where
  "exec_results executor [] x = []"
| "exec_results executor (operation # rest) x =
     (operation, fst (executor x operation)) # exec_results executor rest (snd (executor x operation))"

fun counts_failed :: "SyncOperation \<times> exec_result \<Rightarrow> bool" where
  "counts_failed (operation, Raised) = True"
| "counts_failed (operation, Returned ok) = (\<not> ok \<and> retries operation + 1 \<ge> 3)"

definition lookup_op :: "string \<Rightarrow> SyncOperation list option \<Rightarrow> SyncOperation option" where
  "lookup_op oid blob = find (\<lambda>op. op_id op = oid) (getQueue blob)"

definition failed_among_others :: "string \<Rightarrow> (SyncOperation \<times> exec_result) list \<Rightarrow> nat" where
  "failed_among_others oid rs =
     length (filter counts_failed (filter (\<lambda>r. op_id (fst r) \<noteq> oid) rs))"

section \<open>Runs of enqueue calls and drain passes\<close>

text \<open>
  The queue, the connectivity monitor and the executor's world together, with
  the log of the operations handed to the executor. A run is a list of events,
  each an \<^verbatim>\<open>addToQueue\<close> call or a whole \<^verbatim>\<open>processQueue\<close> pass.
\<close>

record 'x world =
  w_queue :: SyncQueue
  w_net :: NetworkStatusManager
  w_ext :: 'x
  w_trace :: "SyncOperation list"

datatype 'x queue_event =
    Enqueue enqueue_call
  | Drain "'x \<Rightarrow> SyncOperation \<Rightarrow> exec_result \<times> 'x" "bool option"

fun step_event :: "'x queue_event \<Rightarrow> 'x world \<Rightarrow> 'x world" where
  "step_event (Enqueue c) w =
     w\<lparr>w_queue := (w_queue w)\<lparr>queue_blob := enqueue (queue_blob (w_queue w)) c\<rparr>\<rparr>"
| "step_event (Drain executor probe) w =
     (let r = processQueue executor probe (w_queue w) (w_net w) (w_ext w)
      in \<lparr>w_queue = dr_queue r, w_net = dr_net r, w_ext = dr_ext r,
          w_trace = w_trace w @ dr_trace r\<rparr>)"

definition run_events :: "'x world \<Rightarrow> 'x queue_event list \<Rightarrow> 'x world" where
  "run_events w evs = foldl (\<lambda>w ev. step_event ev w) w evs"

text \<open>
  A result of the executor spares the operation of a pair when the loop keeps
  that operation queued: the executor raised, or it returned \<^verbatim>\<open>false\<close> and the
  incremented retry counter stays below 3. Results for other pairs do not matter.
\<close>

fun spares :: "SyncEntityType \<Rightarrow> string \<Rightarrow> SyncOperation \<times> exec_result \<Rightarrow> bool" where
  "spares e eid (operation, Raised) = True"
| "spares e eid (operation, Returned ok) =
     (if same_entity e eid operation then \<not> ok \<and> retries operation + 1 < 3 else True)"

text \<open>
  An event leaves a pending operation of the pair alone: an enqueue call is not a
  DELETE for the pair (and draws an operation identifier that is not in the
  queue, as \<^verbatim>\<open>generateId\<close> does); a drain pass, if it runs at all, spares the
  pair's operation. The condition on a run is checked event by event on the state
  the event meets.
\<close>

fun event_spares :: "SyncEntityType \<Rightarrow> string \<Rightarrow> 'x queue_event \<Rightarrow> 'x world \<Rightarrow> bool" where
  "event_spares e eid (Enqueue c) w =
     (\<not> (call_type c = DELETE \<and> call_entity c = e \<and> call_entityId c = eid)
      \<and> call_newId c \<notin> set (map op_id (getQueue (queue_blob (w_queue w)))))"
| "event_spares e eid (Drain executor probe) w =
     (isSyncing (w_queue w) \<or> \<not> or_false probe
      \<or> list_all (spares e eid)
           (exec_results executor (sort_key timestamp (getQueue (queue_blob (w_queue w))))
              (w_ext w)))"

primrec run_spares :: "SyncEntityType \<Rightarrow> string \<Rightarrow> 'x queue_event list \<Rightarrow> 'x world \<Rightarrow> bool" where
  "run_spares e eid [] w = True"
| "run_spares e eid (ev # evs) w =
     (event_spares e eid ev w \<and> run_spares e eid evs (step_event ev w))"

section \<open>One \<^verbatim>\<open>processQueue\<close> call between its suspension points\<close>

text \<open>
  \<^verbatim>\<open>processQueue\<close> is asynchronous: it runs until an \<^verbatim>\<open>await\<close>, and other code,
  a second call of \<^verbatim>\<open>processQueue\<close> included, may run before it resumes. A call
  is followed here through four kinds of step: entering (the test of
  \<^verbatim>\<open>isSyncing\<close>, up to the awaited \<^verbatim>\<open>checkConnection\<close>); resuming with the
  outcome of the probe (the flag is raised here and the sorted snapshot taken);
  one iteration of the loop; and the \<^verbatim>\<open>finally\<close> block with the return. The
  local state of a call is where it stands: awaiting the probe, in the loop with
  the operations left and its two counters, or returned with its counts.
\<close>

datatype pq_call = Probing | Looping "SyncOperation list" nat nat | Finished nat nat

definition pq_enter :: "'x world \<Rightarrow> pq_call" where
  "pq_enter w = (if isSyncing (w_queue w) then Finished 0 0 else Probing)"

fun pq_resume ::
  "('x \<Rightarrow> SyncOperation \<Rightarrow> exec_result \<times> 'x) \<Rightarrow> bool option \<Rightarrow> pq_call \<Rightarrow> 'x world \<Rightarrow>
   pq_call \<times> 'x world" where
  "pq_resume executor probe Probing w =
     (let (connected, m') = checkConnection probe (w_net w) in
      if \<not> connected then (Finished 0 0, w\<lparr>w_net := m'\<rparr>)
      else (Looping (sort_key timestamp (getQueue (queue_blob (w_queue w)))) 0 0,
            w\<lparr>w_net := m', w_queue := (w_queue w)\<lparr>isSyncing := True\<rparr>\<rparr>))"
| "pq_resume executor probe (Looping (operation # rest) success failed) w =
     (let st = process_operation executor operation
                 \<lparr>ds_blob = queue_blob (w_queue w), ds_success = success, ds_failed = failed,
                  ds_ext = w_ext w, ds_trace = w_trace w\<rparr>
      in (Looping rest (ds_success st) (ds_failed st),
          w\<lparr>w_queue := (w_queue w)\<lparr>queue_blob := ds_blob st\<rparr>,
            w_ext := ds_ext st, w_trace := ds_trace st\<rparr>))"
| "pq_resume executor probe (Looping [] success failed) w =
     (Finished success failed, w\<lparr>w_queue := (w_queue w)\<lparr>isSyncing := False\<rparr>\<rparr>)"
| "pq_resume executor probe (Finished success failed) w = (Finished success failed, w)"

text \<open>A call resumed \<open>n\<close> times in a row, with nothing running in between.\<close>

primrec pq_steps ::
  "('x \<Rightarrow> SyncOperation \<Rightarrow> exec_result \<times> 'x) \<Rightarrow> bool option \<Rightarrow> nat \<Rightarrow> pq_call \<times> 'x world \<Rightarrow>
   pq_call \<times> 'x world" where
  "pq_steps executor probe 0 cw = cw"
| "pq_steps executor probe (Suc n) cw =
     pq_steps executor probe n (pq_resume executor probe (fst cw) (snd cw))"

section \<open>The entity cache (services/offlineStorage.ts)\<close>

text \<open>
  Two of the storage keys are modelled: the container collection and the mapping
  from container identifier to container detail. The last-sync stamp that
  \<^verbatim>\<open>setContainers\<close> also writes, the borrowed items and the teams live under keys
  of their own that nothing below reads. As for the queue, the store is reliable.

  A detail mapping is a plain JSON object keyed by container identifiers. Its own
  properties are a finite map. Reading a property that the object does not own
  falls back to the members every object inherits from \<^verbatim>\<open>Object.prototype\<close>, so
  the read \<^verbatim>\<open>details[containerId] || null\<close> has three outcomes: no detail, a
  stored detail, or an inherited member (a function, or the prototype itself),
  which is not a detail but is not \<^verbatim>\<open>null\<close> either.
\<close>

record Container =
  c_id :: string
  c_name :: string
  c_location :: string
  c_row :: int
  c_column :: string
  c_description :: "string option"
  c_qrCode :: string
  c_color :: "string option"
  c_itemCount :: int
  c_parentId :: "string option"
  c_parentName :: "string option"
  c_teamId :: "string option"
  c_teamName :: "string option"
  c_createdAt :: string
  c_updatedAt :: string

record Item =
  i_id :: string
  i_name :: string
  i_description :: "string option"
  i_category :: "string option"
  i_imageUrl :: string
  i_thumbnailUrl :: "string option"
  i_aiTags :: "string list"
  i_aiConfidence :: "real option"
  i_containerId :: string
  i_containerName :: string
  i_containerLocation :: string
  i_isBorrowed :: bool
  i_borrowedTo :: "string option"
  i_borrowedAt :: "string option"
  i_borrowedNote :: "string option"
  i_createdAt :: string
  i_updatedAt :: string

record ContainerChild =
  ch_id :: string
  ch_name :: string
  ch_location :: "string option"

record ContainerWithItems = Container +
  items :: "Item list"
  children :: "ContainerChild list option"
  path :: "string option"

definition object_prototype_names :: "string list" where
  "object_prototype_names =
     [''constructor'', ''__defineGetter__'', ''__defineSetter__'', ''hasOwnProperty'',
      ''__lookupGetter__'', ''__lookupSetter__'', ''isPrototypeOf'',
      ''propertyIsEnumerable'', ''toString'', ''valueOf'', ''__proto__'',
      ''toLocaleString'']"

datatype detail_read = NoDetail | Detail ContainerWithItems | InheritedMember string

record OfflineCache =
  containers_blob :: "Container list option"
  details_blob :: "(string \<rightharpoonup> ContainerWithItems) option"

definition offlineStorage_getContainers :: "OfflineCache \<Rightarrow> Container list" where
  "offlineStorage_getContainers c = (case containers_blob c of None \<Rightarrow> [] | Some l \<Rightarrow> l)"

definition offlineStorage_setContainers :: "Container list \<Rightarrow> OfflineCache \<Rightarrow> OfflineCache" where
  "offlineStorage_setContainers l c = c\<lparr>containers_blob := Some l\<rparr>"

definition offlineStorage_updateContainer :: "Container \<Rightarrow> OfflineCache \<Rightarrow> OfflineCache" where
  "offlineStorage_updateContainer ct c =
     (let containers = offlineStorage_getContainers c in
      case findIndex (\<lambda>x. c_id x = c_id ct) containers of
        Some index \<Rightarrow> offlineStorage_setContainers (containers[index := ct]) c
      | None \<Rightarrow> offlineStorage_setContainers (containers @ [ct]) c)"

definition getContainerDetail :: "string \<Rightarrow> OfflineCache \<Rightarrow> detail_read" where
  "getContainerDetail containerId c =
     (case details_blob c of
        None \<Rightarrow> NoDetail
      | Some details \<Rightarrow>
          (case details containerId of
             Some detail \<Rightarrow> Detail detail
           | None \<Rightarrow>
               if containerId \<in> set object_prototype_names then InheritedMember containerId
               else NoDetail))"

text \<open>
  The assignment \<^verbatim>\<open>details[containerId] = detail\<close> defines or overwrites an own
  property, except for the key \<^verbatim>\<open>__proto__\<close> when the object does not own it:
  there the inherited setter replaces the prototype and the own properties, which
  are what \<^verbatim>\<open>JSON.stringify\<close> writes, stay as they are.
\<close>

definition setContainerDetail :: "string \<Rightarrow> ContainerWithItems \<Rightarrow> OfflineCache \<Rightarrow> OfflineCache" where
  "setContainerDetail containerId detail c =
     (let details = (case details_blob c of None \<Rightarrow> Map.empty | Some d \<Rightarrow> d)
      in if containerId = ''__proto__'' \<and> details containerId = None
         then c\<lparr>details_blob := Some details\<rparr>
         else c\<lparr>details_blob := Some (details(containerId \<mapsto> detail))\<rparr>)"

definition removeContainerDetail :: "string \<Rightarrow> OfflineCache \<Rightarrow> OfflineCache" where
  "removeContainerDetail containerId c =
     (case details_blob c of
        None \<Rightarrow> c
      | Some details \<Rightarrow> c\<lparr>details_blob := Some (details(containerId := None))\<rparr>)"

definition offlineStorage_deleteContainer :: "string \<Rightarrow> OfflineCache \<Rightarrow> OfflineCache" where
  "offlineStorage_deleteContainer containerId c =
     (let containers = offlineStorage_getContainers c;
          filtered = filter (\<lambda>x. c_id x \<noteq> containerId) containers
      in removeContainerDetail containerId (offlineStorage_setContainers filtered c))"

text \<open>
  On an inherited member \<^verbatim>\<open>detail.items\<close> is \<^verbatim>\<open>undefined\<close>, the call of
  \<^verbatim>\<open>findIndex\<close> throws, and the \<^verbatim>\<open>catch\<close> leaves the cache as it was.
\<close>

definition updateItemInCache :: "Item \<Rightarrow> OfflineCache \<Rightarrow> OfflineCache" where
  "updateItemInCache it c =
     (case getContainerDetail (i_containerId it) c of
        NoDetail \<Rightarrow> c
      | InheritedMember name \<Rightarrow> c
      | Detail detail \<Rightarrow>
          (case findIndex (\<lambda>i. i_id i = i_id it) (items detail) of
             Some index \<Rightarrow>
               setContainerDetail (i_containerId it)
                 (detail\<lparr>items := (items detail)[index := it]\<rparr>) c
           | None \<Rightarrow> c))"

section \<open>The API layer (services/api.ts)\<close>

text \<open>
  What a remote call can throw: an Axios error with its optional response status,
  code and message, or any other error.
\<close>

datatype thrown =
    AxiosError "nat option" "string option" string
  | JsError string

fun isNetworkError :: "thrown \<Rightarrow> bool" where
  "isNetworkError (AxiosError response code msg) =
     (response = None \<or> code = Some ''ECONNABORTED'' \<or> code = Some ''ERR_NETWORK''
      \<or> msg = ''Network Error'')"
| "isNetworkError (JsError msg) = False"

text \<open>
  Generated identifiers, from the text that a template literal puts for a number,
  the reading of \<^verbatim>\<open>Date.now()\<close> and the random suffix.
\<close>

definition generateTempId :: "(int \<Rightarrow> string) \<Rightarrow> int \<Rightarrow> string \<Rightarrow> string" where
  "generateTempId text now rnd = ''temp-'' @ text now @ ''-'' @ rnd"

definition generateId :: "(int \<Rightarrow> string) \<Rightarrow> int \<Rightarrow> string \<Rightarrow> string" where
  "generateId text now rnd = text now @ ''-'' @ rnd"

text \<open>
  What one call of the API layer takes from the platform: the readings of the
  clock and of the random source (for the temporary identifier, for the two dates
  of a placeholder entity, and for the identifier and the timestamp of the queued
  operation), and the text that a template literal puts for a number. Row numbers
  are integers.
\<close>

record env =
  tempStamp :: int
  tempRand :: string
  createdIso :: string
  updatedIso :: string
  opStamp :: int
  opRand :: string
  opTime :: int
  numberText :: "int \<Rightarrow> string"

text \<open>
  The request bodies. An optional field of an object is absent, present with the
  value \<^verbatim>\<open>undefined\<close> (the screens write such literals), or present with a
  value. Reading the field does not tell the first two apart; spreading the object
  does.
\<close>

datatype 'a opt = Absent | Undefined | Given 'a

definition read_field :: "'a opt \<Rightarrow> 'a option" where
  "read_field f = (case f of Given a \<Rightarrow> Some a | _ \<Rightarrow> None)"

definition property_of :: "('a \<Rightarrow> jvalue) \<Rightarrow> 'a opt \<Rightarrow> jvalue opt" where
  "property_of j f = (case f of Absent \<Rightarrow> Absent | Undefined \<Rightarrow> Undefined | Given a \<Rightarrow> Given (j a))"

text \<open>The object with the listed properties, later entries for a name winning.\<close>

definition object_of :: "(string \<times> jvalue opt) list \<Rightarrow> js_data" where
  "object_of ps =
     DObj (\<lambda>k. case map_of (rev ps) k of
                  Some (Given v) \<Rightarrow> Some (Some v)
                | Some Undefined \<Rightarrow> Some None
                | _ \<Rightarrow> None)"

record CreateContainerDto =
  dto_name :: string
  dto_row :: int
  dto_column :: string
  dto_description :: "string opt"
  dto_color :: "string opt"
  dto_parentId :: "string opt"
  dto_teamId :: "string opt"

record PartialContainerDto =
  p_name :: "string opt"
  p_row :: "int opt"
  p_column :: "string opt"
  p_description :: "string opt"
  p_color :: "string opt"
  p_parentId :: "string opt"
  p_teamId :: "string opt"

record UpdateItemDto =
  u_name :: "string opt"
  u_description :: "string opt"
  u_category :: "string opt"
  u_aiTags :: "string list opt"

definition createDto_object :: "CreateContainerDto \<Rightarrow> js_data" where
  "createDto_object d = object_of
     [(''name'', Given (JStr (dto_name d))),
      (''row'', Given (JNum (dto_row d))),
      (''column'', Given (JStr (dto_column d))),
      (''description'', property_of JStr (dto_description d)),
      (''color'', property_of JStr (dto_color d)),
      (''parentId'', property_of JStr (dto_parentId d)),
      (''teamId'', property_of JStr (dto_teamId d))]"

definition partialDto_object :: "PartialContainerDto \<Rightarrow> js_data" where
  "partialDto_object d = object_of
     [(''name'', property_of JStr (p_name d)),
      (''row'', property_of JNum (p_row d)),
      (''column'', property_of JStr (p_column d)),
      (''description'', property_of JStr (p_description d)),
      (''color'', property_of JStr (p_color d)),
      (''parentId'', property_of JStr (p_parentId d)),
      (''teamId'', property_of JStr (p_teamId d))]"

definition updateItemDto_object :: "UpdateItemDto \<Rightarrow> js_data" where
  "updateItemDto_object d = object_of
     [(''name'', property_of JStr (u_name d)),
      (''description'', property_of JStr (u_description d)),
      (''category'', property_of JStr (u_category d)),
      (''aiTags'', property_of (\<lambda>tags. JArr (map JStr tags)) (u_aiTags d))]"

text \<open>\<^verbatim>\<open>s || null\<close>, \<^verbatim>\<open>s || ''\<close> and \<^verbatim>\<open>a ?? b\<close> on what reading a field gives.\<close>

definition or_null :: "string option \<Rightarrow> string option" where
  "or_null v = (case v of None \<Rightarrow> None | Some s \<Rightarrow> if s = [] then None else Some s)"

definition or_empty :: "string option \<Rightarrow> string" where
  "or_empty v = (case v of None \<Rightarrow> [] | Some s \<Rightarrow> s)"

definition nullish :: "'a option \<Rightarrow> 'a \<Rightarrow> 'a" where
  "nullish v d = (case v of None \<Rightarrow> d | Some a \<Rightarrow> a)"

record App =
  cache :: OfflineCache
  sq :: SyncQueue
  net :: NetworkStatusManager

definition enqueue_op ::
  "env \<Rightarrow> SyncOperationType \<Rightarrow> SyncEntityType \<Rightarrow> string \<Rightarrow> js_data \<Rightarrow> App \<Rightarrow> App" where
  "enqueue_op ev ty e eid d app =
     app\<lparr>sq := (sq app)\<lparr>queue_blob :=
       snd (addToQueue (generateId (numberText ev) (opStamp ev) (opRand ev)) (opTime ev)
              ty e eid d
              (queue_blob (sq app)))\<rparr>\<rparr>"

text \<open>
  Each write call makes at most one remote call; \<open>resp\<close> is what that call
  yields if it is made: the response body, or what it throws.
\<close>

definition createContainer_offline :: "env \<Rightarrow> CreateContainerDto \<Rightarrow> App \<Rightarrow> (thrown + Container) \<times> App" where
  "createContainer_offline ev d app =
     (let tempId = generateTempId (numberText ev) (tempStamp ev) (tempRand ev);
          tempContainer =
            \<lparr>c_id = tempId, c_name = dto_name d,
             c_location = dto_column d @ numberText ev (dto_row d),
             c_row = dto_row d, c_column = dto_column d,
             c_description = or_null (read_field (dto_description d)),
             c_qrCode = ''temp-qr-'' @ tempId,
             c_color = or_null (read_field (dto_color d)), c_itemCount = 0,
             c_parentId = or_null (read_field (dto_parentId d)), c_parentName = None,
             c_teamId = or_null (read_field (dto_teamId d)), c_teamName = None,
             c_createdAt = createdIso ev, c_updatedAt = updatedIso ev\<rparr>;
          app1 = app\<lparr>cache := offlineStorage_updateContainer tempContainer (cache app)\<rparr>
      in (Inr tempContainer, enqueue_op ev CREATE container tempId (createDto_object d) app1))"

definition api_createContainer ::
  "env \<Rightarrow> thrown + Container \<Rightarrow> CreateContainerDto \<Rightarrow> App \<Rightarrow> (thrown + Container) \<times> App" where
  "api_createContainer ev resp d app =
     (if getIsConnected (net app) then
        (case resp of
           Inr c \<Rightarrow> (Inr c, app\<lparr>cache := offlineStorage_updateContainer c (cache app)\<rparr>)
         | Inl err \<Rightarrow>
             if \<not> isNetworkError err then (Inl err, app)
             else createContainer_offline ev d app)
      else createContainer_offline ev d app)"

definition updateContainer_offline ::
  "env \<Rightarrow> string \<Rightarrow> PartialContainerDto \<Rightarrow> App \<Rightarrow> (thrown + Container) \<times> App" where
  "updateContainer_offline ev cid d app =
     (let containers = offlineStorage_getContainers (cache app) in
      case find (\<lambda>c. c_id c = cid) containers of
        Some existing \<Rightarrow>
          (let updated = existing
                 \<lparr>c_name := nullish (read_field (p_name d)) (c_name existing),
                  c_row := nullish (read_field (p_row d)) (c_row existing),
                  c_column := nullish (read_field (p_column d)) (c_column existing),
                  c_location :=
                    (case (read_field (p_column d), read_field (p_row d)) of
                       (Some col, Some r) \<Rightarrow>
                         if col \<noteq> [] \<and> r \<noteq> 0 then col @ numberText ev r
                         else c_location existing
                     | _ \<Rightarrow> c_location existing),
                  c_description :=
                    (case read_field (p_description d) of Some s \<Rightarrow> Some s | None \<Rightarrow> c_description existing),
                  c_color := (case read_field (p_color d) of Some s \<Rightarrow> Some s | None \<Rightarrow> c_color existing),
                  c_updatedAt := updatedIso ev\<rparr>;
               app1 = app\<lparr>cache := offlineStorage_updateContainer updated (cache app)\<rparr>
           in (Inr updated, enqueue_op ev UPDATE container cid (partialDto_object d) app1))
      | None \<Rightarrow> (Inl (JsError ''Container not found in cache''), app))"

definition api_updateContainer ::
  "env \<Rightarrow> thrown + Container \<Rightarrow> string \<Rightarrow> PartialContainerDto \<Rightarrow> App \<Rightarrow> (thrown + Container) \<times> App" where
  "api_updateContainer ev resp cid d app =
     (if getIsConnected (net app) then
        (case resp of
           Inr c \<Rightarrow> (Inr c, app\<lparr>cache := offlineStorage_updateContainer c (cache app)\<rparr>)
         | Inl err \<Rightarrow>
             if \<not> isNetworkError err then (Inl err, app)
             else updateContainer_offline ev cid d app)
      else updateContainer_offline ev cid d app)"

definition deleteContainer_offline :: "env \<Rightarrow> string \<Rightarrow> App \<Rightarrow> (thrown + unit) \<times> App" where
  "deleteContainer_offline ev cid app =
     (let app1 = app\<lparr>cache := offlineStorage_deleteContainer cid (cache app)\<rparr> in
      if take 5 cid \<noteq> ''temp-'' then (Inr (), enqueue_op ev DELETE container cid DNull app1)
      else (Inr (), app1))"

definition api_deleteContainer ::
  "env \<Rightarrow> thrown + unit \<Rightarrow> string \<Rightarrow> App \<Rightarrow> (thrown + unit) \<times> App" where
  "api_deleteContainer ev resp cid app =
     (if getIsConnected (net app) then
        (case resp of
           Inr u \<Rightarrow> (Inr (), app\<lparr>cache := offlineStorage_deleteContainer cid (cache app)\<rparr>)
         | Inl err \<Rightarrow>
             if \<not> isNetworkError err then (Inl err, app)
             else deleteContainer_offline ev cid app)
      else deleteContainer_offline ev cid app)"

definition updateItem_offline :: "env \<Rightarrow> string \<Rightarrow> UpdateItemDto \<Rightarrow> App \<Rightarrow> (thrown + Item) \<times> App" where
  "updateItem_offline ev iid d app =
     (Inr \<lparr>i_id = iid, i_name = or_empty (read_field (u_name d)),
           i_description = or_null (read_field (u_description d)),
           i_category = or_null (read_field (u_category d)),
           i_imageUrl = [], i_thumbnailUrl = None,
           i_aiTags = nullish (read_field (u_aiTags d)) [],
           i_aiConfidence = None,
           i_containerId = [], i_containerName = [], i_containerLocation = [],
           i_isBorrowed = False, i_borrowedTo = None, i_borrowedAt = None,
           i_borrowedNote = None, i_createdAt = [], i_updatedAt = updatedIso ev\<rparr>,
      enqueue_op ev UPDATE item iid (updateItemDto_object d) app)"

definition api_updateItem ::
  "env \<Rightarrow> thrown + Item \<Rightarrow> string \<Rightarrow> UpdateItemDto \<Rightarrow> App \<Rightarrow> (thrown + Item) \<times> App" where
  "api_updateItem ev resp iid d app =
     (if getIsConnected (net app) then
        (case resp of
           Inr it \<Rightarrow> (Inr it, app\<lparr>cache := updateItemInCache it (cache app)\<rparr>)
         | Inl err \<Rightarrow>
             if \<not> isNetworkError err then (Inl err, app)
             else updateItem_offline ev iid d app)
      else updateItem_offline ev iid d app)"

definition api_deleteItem ::
  "env \<Rightarrow> thrown + unit \<Rightarrow> string \<Rightarrow> App \<Rightarrow> (thrown + unit) \<times> App" where
  "api_deleteItem ev resp iid app =
     (if getIsConnected (net app) then
        (case resp of
           Inr u \<Rightarrow> (Inr (), app)
         | Inl err \<Rightarrow>
             if \<not> isNetworkError err then (Inl err, app)
             else (Inr (), enqueue_op ev DELETE item iid DNull app))
      else (Inr (), enqueue_op ev DELETE item iid DNull app))"

text \<open>
  The offline case of a write call: connectivity is known to be absent, or the
  remote call fails with a connectivity failure.
\<close>

definition offline_case :: "App \<Rightarrow> thrown + 'a \<Rightarrow> bool" where
  "offline_case app resp =
     (if getIsConnected (net app) then (case resp of Inl err \<Rightarrow> isNetworkError err | Inr v \<Rightarrow> False)
      else True)"

text \<open>
  The remote API as the replay sees it: what each request yields. The executor of
  \<^verbatim>\<open>processSyncQueue\<close> acts on the entity cache and catches everything, so it
  never raises.
\<close>

record remote_api =
  post_containers :: "payload \<Rightarrow> thrown + Container"
  put_containers :: "string \<Rightarrow> payload \<Rightarrow> thrown + unit"
  delete_containers :: "string \<Rightarrow> thrown + unit"
  put_items :: "string \<Rightarrow> payload \<Rightarrow> thrown + unit"
  delete_items :: "string \<Rightarrow> thrown + unit"

definition sync_executor :: "remote_api \<Rightarrow> OfflineCache \<Rightarrow> SyncOperation \<Rightarrow> exec_result \<times> OfflineCache" where
  "sync_executor remote c operation =
     (case entity operation of
        container \<Rightarrow>
          if op_type operation = CREATE then
            (case post_containers remote (data operation) of
               Inr result \<Rightarrow>
                 (Returned True,
                  offlineStorage_updateContainer result
                    (offlineStorage_deleteContainer (entityId operation) c))
             | Inl err \<Rightarrow> (Returned False, c))
          else if op_type operation = UPDATE then
            (case put_containers remote (entityId operation) (data operation) of
               Inr u \<Rightarrow> (Returned True, c)
             | Inl err \<Rightarrow> (Returned False, c))
          else if op_type operation = DELETE then
            (case delete_containers remote (entityId operation) of
               Inr u \<Rightarrow> (Returned True, c)
             | Inl err \<Rightarrow> (Returned False, c))
          else (Returned False, c)
      | item \<Rightarrow>
          if op_type operation = UPDATE then
            (case put_items remote (entityId operation) (data operation) of
               Inr u \<Rightarrow> (Returned True, c)
             | Inl err \<Rightarrow> (Returned False, c))
          else if op_type operation = DELETE then
            (case delete_items remote (entityId operation) of
               Inr u \<Rightarrow> (Returned True, c)
             | Inl err \<Rightarrow> (Returned False, c))
          else (Returned False, c))"

definition processSyncQueue :: "remote_api \<Rightarrow> bool option \<Rightarrow> App \<Rightarrow> OfflineCache drain_result" where
  "processSyncQueue remote probe app =
     processQueue (sync_executor remote) probe (sq app) (net app) (cache app)"

definition container_ids :: "OfflineCache \<Rightarrow> string set" where
  "container_ids c = c_id ` set (offlineStorage_getContainers c)"

text \<open>A call returns when its outcome is a value and not something thrown.\<close>

definition returns :: "thrown + 'a \<Rightarrow> bool" where
  "returns r = (case r of Inl err \<Rightarrow> False | Inr v \<Rightarrow> True)"

section \<open>Sample data\<close>

text \<open>Concrete operations, queues and executors on which the theorems are run.\<close>

definition op_a :: SyncOperation where
  "op_a = \<lparr>op_id = ''1-a'', op_type = UPDATE, entity = container, entityId = ''c1'',
           data = PNull, timestamp = 10, retries = 0\<rparr>"

definition op_b :: SyncOperation where
  "op_b = \<lparr>op_id = ''2-b'', op_type = DELETE, entity = item, entityId = ''i1'',
           data = PNull, timestamp = 20, retries = 0\<rparr>"

definition queue_ba :: SyncQueue where
  "queue_ba = \<lparr>queue_blob = Some [op_b, op_a], isSyncing = False\<rparr>"

definition always_ok :: "unit \<Rightarrow> SyncOperation \<Rightarrow> exec_result \<times> unit" where
  "always_ok x operation = (Returned True, x)"

definition never_handles :: "unit \<Rightarrow> SyncOperation \<Rightarrow> exec_result \<times> unit" where
  "never_handles x operation = (Returned False, x)"

definition pass1 :: "unit drain_result" where
  "pass1 = processQueue never_handles (Some True) queue_ba networkStatus ()"

definition pass2 :: "unit drain_result" where
  "pass2 = processQueue never_handles (Some True) (dr_queue pass1) (dr_net pass1) (dr_ext pass1)"

definition pass3 :: "unit drain_result" where
  "pass3 = processQueue never_handles (Some True) (dr_queue pass2) (dr_net pass2) (dr_ext pass2)"

text \<open>The decimal digits of an integer, as the platform prints integers of moderate size.\<close>

definition digit_of :: "nat \<Rightarrow> char" where
  "digit_of n = ''0123456789'' ! n"

function show_nat :: "nat \<Rightarrow> string" where
  "show_nat n = (if n < 10 then [digit_of n] else show_nat (n div 10) @ [digit_of (n mod 10)])"
  by pat_completeness auto
termination
  by (relation "measure id") auto

declare show_nat.simps [simp del]

definition show_int :: "int \<Rightarrow> string" where
  "show_int i = (if i < 0 then CHR ''-'' # show_nat (nat (- i)) else show_nat (nat i))"

definition app_offline :: App where
  "app_offline =
     \<lparr>cache = \<lparr>containers_blob = None, details_blob = None\<rparr>,
      sq = \<lparr>queue_blob = None, isSyncing = False\<rparr>,
      net = networkStatus\<lparr>isConnected := False\<rparr>\<rparr>"

definition env0 :: env where
  "env0 = \<lparr>tempStamp = 7, tempRand = ''abc'', createdIso = ''2026-01-01T00:00:00.000Z'',
           updatedIso = ''2026-01-01T00:00:00.000Z'', opStamp = 8, opRand = ''xyz'',
           opTime = 8, numberText = show_int\<rparr>"

definition dto0 :: CreateContainerDto where
  "dto0 = \<lparr>dto_name = ''Box'', dto_row = 1, dto_column = ''A'', dto_description = Undefined,
           dto_color = Undefined, dto_parentId = Undefined, dto_teamId = Undefined\<rparr>"

definition pdto0 :: PartialContainerDto where
  "pdto0 = \<lparr>p_name = Given ''Crate'', p_row = Absent, p_column = Absent,
            p_description = Absent, p_color = Absent, p_parentId = Absent,
            p_teamId = Absent\<rparr>"

definition udto0 :: UpdateItemDto where
  "udto0 = \<lparr>u_name = Given ''Lamp'', u_description = Undefined, u_category = Absent,
            u_aiTags = Absent\<rparr>"

definition net_down :: thrown where
  "net_down = AxiosError None (Some ''ERR_NETWORK'') ''Network Error''"

definition app_created :: App where
  "app_created = snd (api_createContainer env0 (Inl net_down) dto0 app_offline)"

definition create_op :: SyncOperation where
  "create_op =
     \<lparr>op_id = ''8-xyz'', op_type = CREATE, entity = container, entityId = ''temp-7-abc'',
      data = stringify (createDto_object dto0), timestamp = 8, retries = 0\<rparr>"

definition srv_box :: Container where
  "srv_box =
     \<lparr>c_id = ''srv-1'', c_name = ''Box'', c_location = ''A1'', c_row = 1, c_column = ''A'',
      c_description = None, c_qrCode = ''qr-1'', c_color = None, c_itemCount = 0,
      c_parentId = None, c_parentName = None, c_teamId = None, c_teamName = None,
      c_createdAt = ''2026-01-02T00:00:00.000Z'', c_updatedAt = ''2026-01-02T00:00:00.000Z''\<rparr>"

definition remote_ok :: remote_api where
  "remote_ok =
     \<lparr>post_containers = (\<lambda>body. Inr srv_box),
      put_containers = (\<lambda>cid body. Inr ()),
      delete_containers = (\<lambda>cid. Inr ()),
      put_items = (\<lambda>iid body. Inr ()),
      delete_items = (\<lambda>iid. Inr ())\<rparr>"

definition app_deleted :: App where
  "app_deleted = snd (api_deleteContainer env0 (Inl net_down) ''temp-7-abc'' app_created)"

definition replay :: "OfflineCache drain_result" where
  "replay = processSyncQueue remote_ok (Some True) app_deleted"


text \<open>
  Two calls of \<^verbatim>\<open>processQueue\<close> in close succession on a queue of one operation:
  the second enters while the first awaits its probe, then the two take turns.
\<close>

definition world_a :: "unit world" where
  "world_a = \<lparr>w_queue = \<lparr>queue_blob = Some [op_a], isSyncing = False\<rparr>,
              w_net = networkStatus, w_ext = (), w_trace = []\<rparr>"

definition overlap :: "pq_call \<times> pq_call \<times> unit world" where
  "overlap =
     (let first = pq_enter world_a;
          second = pq_enter world_a;
          (first, w) = pq_resume always_ok (Some True) first world_a;
          (second, w) = pq_resume always_ok (Some True) second w;
          (first, w) = pq_resume always_ok (Some True) first w;
          (second, w) = pq_resume always_ok (Some True) second w;
          (first, w) = pq_resume always_ok (Some True) first w;
          (second, w) = pq_resume always_ok (Some True) second w
      in (first, second, w))"

text \<open>
  A CREATE for a pair on an empty queue, three passes with an executor that
  handles nothing, then a DELETE for the pair; and a run in which the CREATE
  stays pending: an UPDATE for the pair and one such pass, then the DELETE.
\<close>

definition world_empty :: "unit world" where
  "world_empty = \<lparr>w_queue = \<lparr>queue_blob = None, isSyncing = False\<rparr>,
                  w_net = networkStatus, w_ext = (), w_trace = []\<rparr>"

definition create_call :: enqueue_call where
  "create_call = \<lparr>call_newId = ''5-e'', call_now = 50, call_type = CREATE,
                  call_entity = container, call_entityId = ''temp-7'', call_data = DNull\<rparr>"

definition update_call :: enqueue_call where
  "update_call = \<lparr>call_newId = ''6-f'', call_now = 60, call_type = UPDATE,
                  call_entity = container, call_entityId = ''temp-7'', call_data = DNull\<rparr>"

definition delete_call :: enqueue_call where
  "delete_call = \<lparr>call_newId = ''9-z'', call_now = 90, call_type = DELETE,
                  call_entity = container, call_entityId = ''temp-7'', call_data = DNull\<rparr>"

definition three_failed_passes :: "unit queue_event list" where
  "three_failed_passes =
     [Drain never_handles (Some True), Drain never_handles (Some True),
      Drain never_handles (Some True)]"

definition update_and_one_pass :: "unit queue_event list" where
  "update_and_one_pass = [Enqueue update_call, Drain never_handles (Some True)]"

definition after_create :: "unit world" where
  "after_create = step_event (Enqueue create_call) world_empty"

definition after_failed_passes :: "unit world" where
  "after_failed_passes = run_events after_create three_failed_passes"

definition after_delete :: "unit world" where
  "after_delete = step_event (Enqueue delete_call) after_failed_passes"

definition kept_create :: "unit world" where
  "kept_create = step_event (Enqueue create_call) world_a"

definition kept_pending :: "unit world" where
  "kept_pending = run_events kept_create update_and_one_pass"

definition kept_delete :: "unit world" where
  "kept_delete = step_event (Enqueue delete_call) kept_pending"

section \<open>Facts about list search and removal\<close>

lemma findIndex_None: "findIndex P xs = None \<longleftrightarrow> (\<forall>x \<in> set xs. \<not> P x)"
  by (induction xs) (auto split: option.splits)

lemma findIndex_Some:
  "findIndex P xs = Some i \<Longrightarrow> i < length xs \<and> P (xs ! i) \<and> (\<forall>j < i. \<not> P (xs ! j))"
proof (induction xs arbitrary: i)
  case Nil
  then show ?case by simp
next
  case (Cons x xs)
  show ?case
  proof (cases "P x")
    case True
    with Cons.prems show ?thesis by simp
  next
    case False
    with Cons.prems obtain k where k: "findIndex P xs = Some k" "i = Suc k"
      by (auto split: option.splits)
    from Cons.IH[OF k(1)] False k(2) show ?thesis
      by (auto simp: less_Suc_eq_0_disj)
  qed
qed

lemma distinct_splice1: "distinct xs \<Longrightarrow> distinct (splice1 i xs)"
proof -
  assume d: "distinct xs"
  have "set (take i xs) \<inter> set (drop (Suc i) xs) = {}"
    using d set_take_disj_set_drop_if_distinct[of xs i "Suc i"] by simp
  with d show ?thesis by (simp add: splice1_def)
qed

lemma map_splice1: "map f (splice1 i xs) = splice1 i (map f xs)"
  by (simp add: splice1_def take_map drop_map)

lemma map_update_same_key:
  "i < length q \<Longrightarrow> f x = f (q ! i) \<Longrightarrow> map f (q[i := x]) = map f q"
  by (simp add: map_update list_update_same_conv)

lemma same_entity_slot: "same_entity e eid op \<longleftrightarrow> slot op = (e, eid)"
  by (auto simp: same_entity_def slot_def)

lemma getQueue_Some [simp]: "getQueue (Some q) = q"
  by (simp add: getQueue_def)

lemma getQueue_saveQueue [simp]: "getQueue (saveQueue q) = q"
  by (simp add: saveQueue_def)

text \<open>The stored form of a merged payload, property by property.\<close>

lemma merged_property:
  "spread (stringify (shallow_merge a b)) k =
     (case spread_js b k of
        None \<Rightarrow> spread a k
      | Some None \<Rightarrow> None
      | Some (Some v) \<Rightarrow> Some v)"
  by (auto simp: stringify_def shallow_merge_def map_add_def split: option.splits)

section \<open>Coalescing on enqueue\<close>




text \<open>
  C3. When \<^verbatim>\<open>addToQueue\<close> finds an operation \<open>existing\<close> for the pair at index
  \<open>i\<close>:
  an UPDATE arriving on a CREATE leaves that CREATE in place with the payload
  \<^verbatim>\<open>{...existing.data, ...data}\<close> (as stored) and nothing else changed;
  an UPDATE arriving on an UPDATE leaves that UPDATE in place with the merged
  payload and the timestamp of the incoming operation;
  a DELETE arriving on an UPDATE puts the incoming DELETE operation in its place,
  with the incoming payload only;
  and when the existing operation is a DELETE, whatever kind arrives, the queue
  keeps its length and the operation at index \<open>i\<close> is still a DELETE for the pair.
\<close>

theorem coalescing_table:
  assumes "findIndex (same_entity e eid) (getQueue blob) = Some i"
    and "existing = getQueue blob ! i"
  shows "(op_type existing = CREATE \<longrightarrow>
            getQueue (snd (addToQueue nid now UPDATE e eid d blob)) =
              (getQueue blob)[i := existing\<lparr>data := stringify (shallow_merge (data existing) d)\<rparr>])
       \<and> (op_type existing = UPDATE \<longrightarrow>
            getQueue (snd (addToQueue nid now UPDATE e eid d blob)) =
              (getQueue blob)[i := existing\<lparr>data := stringify (shallow_merge (data existing) d),
                                             timestamp := now\<rparr>])
       \<and> (op_type existing = UPDATE \<longrightarrow>
            getQueue (snd (addToQueue nid now DELETE e eid d blob)) =
              (getQueue blob)[i := \<lparr>op_id = nid, op_type = DELETE, entity = e, entityId = eid,
                                    data = stringify d, timestamp = now, retries = 0\<rparr>])
       \<and> (op_type existing = DELETE \<longrightarrow>
            (\<forall>ty. length (getQueue (snd (addToQueue nid now ty e eid d blob)))
                    = length (getQueue blob)
                \<and> op_type (getQueue (snd (addToQueue nid now ty e eid d blob)) ! i) = DELETE
                \<and> same_entity e eid (getQueue (snd (addToQueue nid now ty e eid d blob)) ! i)))"
proof -
  from findIndex_Some[OF assms(1)] assms(2)
  have i: "i < length (getQueue blob)" and s: "same_entity e eid existing"
    by simp_all
  have cu: "op_type existing = CREATE \<Longrightarrow>
            getQueue (snd (addToQueue nid now UPDATE e eid d blob)) =
              (getQueue blob)[i := existing\<lparr>data := stringify (shallow_merge (data existing) d)\<rparr>]"
    unfolding addToQueue_def Let_def assms(1)
    by (simp add: assms(2))
  have uu: "op_type existing = UPDATE \<Longrightarrow>
            getQueue (snd (addToQueue nid now UPDATE e eid d blob)) =
              (getQueue blob)[i := existing\<lparr>data := stringify (shallow_merge (data existing) d),
                                             timestamp := now\<rparr>]"
    unfolding addToQueue_def Let_def assms(1)
    by (simp add: assms(2))
  have ud: "op_type existing = UPDATE \<Longrightarrow>
            getQueue (snd (addToQueue nid now DELETE e eid d blob)) =
              (getQueue blob)[i := \<lparr>op_id = nid, op_type = DELETE, entity = e, entityId = eid,
                                    data = stringify d, timestamp = now, retries = 0\<rparr>]"
    unfolding addToQueue_def Let_def assms(1)
    by (simp add: assms(2)[symmetric])
  have dd: "length (getQueue (snd (addToQueue nid now ty e eid d blob)))
                    = length (getQueue blob)
                \<and> op_type (getQueue (snd (addToQueue nid now ty e eid d blob)) ! i) = DELETE
                \<and> same_entity e eid (getQueue (snd (addToQueue nid now ty e eid d blob)) ! i)"
    if "op_type existing = DELETE" for ty
    unfolding addToQueue_def Let_def assms(1)
    using that i s
    by (cases ty) (simp_all add: assms(2)[symmetric] same_entity_def)
  from cu uu ud dd show ?thesis by blast
qed

theorem coalescing_table_witness:
  "findIndex (same_entity container ''temp-1'') (getQueue (Some
      [\<lparr>op_id = ''1-a'', op_type = CREATE, entity = container, entityId = ''temp-1'',
        data = PObj [''name'' \<mapsto> JStr ''A''], timestamp = 10, retries = 0\<rparr>])) = Some 0
   \<and> getQueue (snd (addToQueue ''2-b'' 20 UPDATE container ''temp-1''
        (DObj [''color'' \<mapsto> Some (JStr ''red'')]) (Some
      [\<lparr>op_id = ''1-a'', op_type = CREATE, entity = container, entityId = ''temp-1'',
        data = PObj [''name'' \<mapsto> JStr ''A''], timestamp = 10, retries = 0\<rparr>])))
     = [\<lparr>op_id = ''1-a'', op_type = CREATE, entity = container, entityId = ''temp-1'',
         data = PObj [''name'' \<mapsto> JStr ''A'', ''color'' \<mapsto> JStr ''red''],
         timestamp = 10, retries = 0\<rparr>]
   \<and> findIndex (same_entity item ''i1'') (getQueue (Some
      [\<lparr>op_id = ''1-a'', op_type = UPDATE, entity = item, entityId = ''i1'',
        data = PObj [''name'' \<mapsto> JStr ''A''], timestamp = 10, retries = 1\<rparr>])) = Some 0
   \<and> getQueue (snd (addToQueue ''2-b'' 20 UPDATE item ''i1''
        (DObj [''name'' \<mapsto> Some (JStr ''B'')]) (Some
      [\<lparr>op_id = ''1-a'', op_type = UPDATE, entity = item, entityId = ''i1'',
        data = PObj [''name'' \<mapsto> JStr ''A''], timestamp = 10, retries = 1\<rparr>])))
     = [\<lparr>op_id = ''1-a'', op_type = UPDATE, entity = item, entityId = ''i1'',
         data = PObj [''name'' \<mapsto> JStr ''B''], timestamp = 20, retries = 1\<rparr>]
   \<and> getQueue (snd (addToQueue ''2-b'' 20 DELETE item ''i1'' DNull (Some
      [\<lparr>op_id = ''1-a'', op_type = UPDATE, entity = item, entityId = ''i1'',
        data = PObj [''name'' \<mapsto> JStr ''A''], timestamp = 10, retries = 1\<rparr>])))
     = [\<lparr>op_id = ''2-b'', op_type = DELETE, entity = item, entityId = ''i1'',
         data = PNull, timestamp = 20, retries = 0\<rparr>]
   \<and> findIndex (same_entity item ''i2'') (getQueue (Some
      [\<lparr>op_id = ''1-a'', op_type = DELETE, entity = item, entityId = ''i2'',
        data = PNull, timestamp = 10, retries = 0\<rparr>])) = Some 0
   \<and> op_type (getQueue (snd (addToQueue ''2-b'' 20 UPDATE item ''i2''
        (DObj [''name'' \<mapsto> Some (JStr ''B'')]) (Some
      [\<lparr>op_id = ''1-a'', op_type = DELETE, entity = item, entityId = ''i2'',
        data = PNull, timestamp = 10, retries = 0\<rparr>]))) ! 0) = DELETE"
proof -
  let ?c = "\<lparr>op_id = ''1-a'', op_type = CREATE, entity = container, entityId = ''temp-1'',
        data = PObj [''name'' \<mapsto> JStr ''A''], timestamp = 10, retries = 0\<rparr>"
  let ?u = "\<lparr>op_id = ''1-a'', op_type = UPDATE, entity = item, entityId = ''i1'',
        data = PObj [''name'' \<mapsto> JStr ''A''], timestamp = 10, retries = 1\<rparr>"
  let ?d = "\<lparr>op_id = ''1-a'', op_type = DELETE, entity = item, entityId = ''i2'',
        data = PNull, timestamp = 10, retries = 0\<rparr>"
  have hc: "findIndex (same_entity container ''temp-1'') (getQueue (Some [?c])) = Some 0"
    by (simp add: same_entity_def)
  have hu: "findIndex (same_entity item ''i1'') (getQueue (Some [?u])) = Some 0"
    by (simp add: same_entity_def)
  have hd: "findIndex (same_entity item ''i2'') (getQueue (Some [?d])) = Some 0"
    by (simp add: same_entity_def)
  have ec: "?c = getQueue (Some [?c]) ! 0" and eu: "?u = getQueue (Some [?u]) ! 0"
    and ed: "?d = getQueue (Some [?d]) ! 0"
    by simp_all
  have m1: "stringify (shallow_merge (PObj [''name'' \<mapsto> JStr ''A''])
                         (DObj [''color'' \<mapsto> Some (JStr ''red'')]))
            = PObj [''name'' \<mapsto> JStr ''A'', ''color'' \<mapsto> JStr ''red'']"
    by (auto simp: stringify_def shallow_merge_def map_add_def fun_eq_iff)
  have m2: "stringify (shallow_merge (PObj [''name'' \<mapsto> JStr ''A''])
                         (DObj [''name'' \<mapsto> Some (JStr ''B'')]))
            = PObj [''name'' \<mapsto> JStr ''B'']"
    by (auto simp: stringify_def shallow_merge_def map_add_def fun_eq_iff)
  have m3: "stringify DNull = PNull"
    by (simp add: stringify_def)
  from coalescing_table[OF hc ec, of "''2-b''" 20 "DObj [''color'' \<mapsto> Some (JStr ''red'')]"]
  have r1: "getQueue (snd (addToQueue ''2-b'' 20 UPDATE container ''temp-1''
        (DObj [''color'' \<mapsto> Some (JStr ''red'')]) (Some [?c])))
     = [?c\<lparr>data := PObj [''name'' \<mapsto> JStr ''A'', ''color'' \<mapsto> JStr ''red'']\<rparr>]"
    unfolding getQueue_Some by (simp add: m1)
  from coalescing_table[OF hu eu, of "''2-b''" 20 "DObj [''name'' \<mapsto> Some (JStr ''B'')]"]
  have r2: "getQueue (snd (addToQueue ''2-b'' 20 UPDATE item ''i1''
        (DObj [''name'' \<mapsto> Some (JStr ''B'')]) (Some [?u])))
     = [?u\<lparr>data := PObj [''name'' \<mapsto> JStr ''B''], timestamp := 20\<rparr>]"
    unfolding getQueue_Some by (simp add: m2)
  from coalescing_table[OF hu eu, of "''2-b''" 20 DNull]
  have r3: "getQueue (snd (addToQueue ''2-b'' 20 DELETE item ''i1'' DNull (Some [?u])))
     = [\<lparr>op_id = ''2-b'', op_type = DELETE, entity = item, entityId = ''i1'',
         data = PNull, timestamp = 20, retries = 0\<rparr>]"
    unfolding getQueue_Some by (simp add: m3)
  from coalescing_table[OF hd ed, of "''2-b''" 20 "DObj [''name'' \<mapsto> Some (JStr ''B'')]"]
  have r4: "op_type (getQueue (snd (addToQueue ''2-b'' 20 UPDATE item ''i2''
        (DObj [''name'' \<mapsto> Some (JStr ''B'')]) (Some [?d]))) ! 0) = DELETE"
    unfolding getQueue_Some by simp
  from hc hu hd r1 r2 r3 r4 show ?thesis by simp
qed

section \<open>A pending CREATE and the DELETE that cancels it\<close>

lemma filter_splice1_other:
  "i < length q \<Longrightarrow> \<not> P (q ! i) \<Longrightarrow> filter P (splice1 i q) = filter P q"
proof -
  assume i: "i < length q" and n: "\<not> P (q ! i)"
  have "filter P q = filter P (take i q @ q ! i # drop (Suc i) q)"
    using i by (simp add: id_take_nth_drop[symmetric])
  with n show ?thesis by (simp add: splice1_def)
qed

lemma filter_update_other:
  "i < length q \<Longrightarrow> \<not> P (q ! i) \<Longrightarrow> \<not> P x \<Longrightarrow> filter P (q[i := x]) = filter P q"
proof -
  assume i: "i < length q" and n: "\<not> P (q ! i)" "\<not> P x"
  have "filter P q = filter P (take i q @ q ! i # drop (Suc i) q)"
    using i by (simp add: id_take_nth_drop[symmetric])
  with n i show ?thesis by (simp add: upd_conv_take_nth_drop)
qed

lemma findIndex_filter_take:
  assumes "findIndex P q = Some i"
  shows "filter P (take i q) = []"
proof -
  from findIndex_Some[OF assms] have "\<forall>j < i. \<not> P (q ! j)" and "i < length q" by simp_all
  then have "\<forall>x \<in> set (take i q). \<not> P x"
    by (auto simp: in_set_conv_nth)
  then show ?thesis by (simp add: filter_empty_conv)
qed

lemma findIndex_filter:
  assumes "findIndex P q = Some i"
  shows "filter P q = q ! i # filter P (drop (Suc i) q)"
proof -
  from findIndex_Some[OF assms] have i: "i < length q" and p: "P (q ! i)" by simp_all
  have "filter P q = filter P (take i q @ q ! i # drop (Suc i) q)"
    using i by (simp add: id_take_nth_drop[symmetric])
  with p show ?thesis by (simp add: findIndex_filter_take[OF assms])
qed

lemma findIndex_filter_update:
  assumes "findIndex P q = Some i" and "P x"
  shows "filter P (q[i := x]) = x # filter P (drop (Suc i) q)"
proof -
  from findIndex_Some[OF assms(1)] have i: "i < length q" by simp
  then show ?thesis
    using assms(2) by (simp add: upd_conv_take_nth_drop findIndex_filter_take[OF assms(1)])
qed

lemma addToQueue_other_slot:
  assumes "(e', eid') \<noteq> (e, eid)"
  shows "filter (same_entity e eid) (getQueue (snd (addToQueue nid now ty e' eid' d blob)))
           = filter (same_entity e eid) (getQueue blob)"
proof (cases "findIndex (same_entity e' eid') (getQueue blob)")
  case None
  with assms show ?thesis
    by (auto simp: addToQueue_def same_entity_def)
next
  case (Some k)
  let ?q = "getQueue blob"
  from findIndex_Some[OF Some] have k: "k < length ?q" and s: "same_entity e' eid' (?q ! k)"
    by simp_all
  from s assms have n: "\<not> same_entity e eid (?q ! k)"
    by (auto simp: same_entity_def)
  have upd: "filter (same_entity e eid) (?q[k := x]) = filter (same_entity e eid) ?q"
    if "same_entity e' eid' x" for x
  proof -
    from that assms have "\<not> same_entity e eid x" by (auto simp: same_entity_def)
    with k n show ?thesis by (simp add: filter_update_other)
  qed
  have spl: "filter (same_entity e eid) (splice1 k ?q) = filter (same_entity e eid) ?q"
    using k n by (rule filter_splice1_other)
  from s have s': "entity (?q ! k) = e'" "entityId (?q ! k) = eid'"
    by (simp_all add: same_entity_def)
  show ?thesis
    unfolding addToQueue_def Let_def Some
    by (cases ty) (simp_all add: upd spl same_entity_def s')
qed

lemma pending_createD:
  assumes "pending_create e eid q"
  obtains i where "findIndex (same_entity e eid) q = Some i" and "op_type (q ! i) = CREATE"
    and "filter (same_entity e eid) (drop (Suc i) q) = []"
proof -
  from assms obtain c where c: "filter (same_entity e eid) q = [c]" "op_type c = CREATE"
    by (auto simp: pending_create_def split: list.splits)
  then have "findIndex (same_entity e eid) q \<noteq> None"
    by (auto simp: findIndex_None filter_empty_conv[symmetric])
  then obtain i where i: "findIndex (same_entity e eid) q = Some i" by auto
  from findIndex_filter[OF i] c have "q ! i = c"
    "filter (same_entity e eid) (drop (Suc i) q) = []" by simp_all
  with i c(2) that show thesis by simp
qed

lemma addToQueue_keeps_pending_create:
  assumes "pending_create e eid (getQueue blob)" and "ty \<noteq> DELETE"
  shows "pending_create e eid (getQueue (snd (addToQueue nid now ty e eid d blob)))"
proof -
  let ?q = "getQueue blob"
  from assms(1) obtain i where i: "findIndex (same_entity e eid) ?q = Some i"
    and c: "op_type (?q ! i) = CREATE"
    and r: "filter (same_entity e eid) (drop (Suc i) ?q) = []"
    by (rule pending_createD)
  from findIndex_Some[OF i] have s: "same_entity e eid (?q ! i)" by simp
  let ?m = "(?q ! i)\<lparr>data := stringify (shallow_merge (data (?q ! i)) d)\<rparr>"
  have sm: "same_entity e eid ?m" using s by (simp add: same_entity_def)
  have "pending_create e eid (?q[i := ?m])"
    using c by (simp add: pending_create_def findIndex_filter_update[OF i sm] r)
  with assms show ?thesis
    unfolding addToQueue_def Let_def i
    by (cases ty) (simp_all add: c)
qed

lemma enqueue_keeps_pending_create:
  assumes "pending_create e eid (getQueue blob)"
    and "call_type c = DELETE \<longrightarrow> (call_entity c, call_entityId c) \<noteq> (e, eid)"
  shows "pending_create e eid (getQueue (enqueue blob c))"
proof (cases "(call_entity c, call_entityId c) = (e, eid)")
  case True
  with assms(2) have "call_type c \<noteq> DELETE" by blast
  from addToQueue_keeps_pending_create[OF assms(1) this] True show ?thesis
    by (simp add: enqueue_def)
next
  case False
  from addToQueue_other_slot[OF False] assms(1) show ?thesis
    by (simp add: enqueue_def pending_create_def)
qed

section \<open>The drain loop\<close>

lemma process_operation_trace:
  "ds_trace (process_operation ex operation st) = ds_trace st @ [operation]"
  by (simp add: process_operation_def Let_def split: prod.splits exec_result.splits option.splits)

lemma process_operation_ext:
  "ds_ext (process_operation ex operation st) = snd (ex (ds_ext st) operation)"
  by (simp add: process_operation_def Let_def split: prod.splits exec_result.splits option.splits)

lemma process_operation_failed:
  "ds_failed (process_operation ex operation st) =
     ds_failed st + (if counts_failed (operation, fst (ex (ds_ext st) operation)) then 1 else 0)"
  by (simp add: process_operation_def Let_def split: prod.splits exec_result.splits option.splits)

lemma process_loop_trace:
  "ds_trace (process_loop ex ops st) = ds_trace st @ ops"
  by (induction ops arbitrary: st) (simp_all add: process_operation_trace)

lemma process_loop_failed:
  "ds_failed (process_loop ex ops st) =
     ds_failed st + length (filter counts_failed (exec_results ex ops (ds_ext st)))"
  by (induction ops arbitrary: st)
     (simp_all add: process_operation_failed process_operation_ext)

lemma processQueue_runs:
  assumes "\<not> isSyncing q" and "or_false probe"
  shows "processQueue ex probe q m x =
     (let st = process_loop ex (sort_key timestamp (getQueue (queue_blob q)))
                 \<lparr>ds_blob = queue_blob q, ds_success = 0, ds_failed = 0,
                  ds_ext = x, ds_trace = []\<rparr>
      in \<lparr>dr_success = ds_success st, dr_failed = ds_failed st,
          dr_queue = \<lparr>queue_blob = ds_blob st, isSyncing = False\<rparr>,
          dr_net = m\<lparr>isConnected := True\<rparr>, dr_ext = ds_ext st, dr_trace = ds_trace st\<rparr>)"
  using assms by (simp add: processQueue_def checkConnection_def Let_def)

lemma processQueue_trace:
  assumes "\<not> isSyncing q" and "or_false probe"
  shows "dr_trace (processQueue ex probe q m x) = sort_key timestamp (getQueue (queue_blob q))"
  by (simp add: processQueue_runs[OF assms] Let_def process_loop_trace)

lemma sorted_key_positions:
  assumes "sorted (map f xs)" and "i < length xs" and "j < length xs"
    and "f (xs ! i) < f (xs ! j)"
  shows "i < j"
proof (rule ccontr)
  assume "\<not> i < j"
  then have "j \<le> i" by simp
  with assms(1,2) have "map f xs ! j \<le> map f xs ! i"
    by (intro sorted_nth_mono) simp_all
  with assms(2,3,4) show False by simp
qed

text \<open>
  C4. In a drain pass that runs (no other pass in progress, connectivity
  confirmed), for any two operations of the stored queue with timestamps
  \<open>T1 < T2\<close>, whatever their entities and wherever they sit in the stored list:
  the executor is invoked on both, and every invocation on the first comes before
  every invocation on the second.
\<close>

theorem replay_in_timestamp_order:
  fixes a b :: SyncOperation
  assumes "\<not> isSyncing q" and "or_false probe"
    and "a \<in> set (getQueue (queue_blob q))" and "b \<in> set (getQueue (queue_blob q))"
    and "timestamp a < timestamp b"
    and "tr = dr_trace (processQueue ex probe q m x)"
  shows "(\<exists>i j. i < j \<and> j < length tr \<and> tr ! i = a \<and> tr ! j = b)
       \<and> (\<forall>i j. i < length tr \<and> j < length tr \<and> tr ! i = a \<and> tr ! j = b \<longrightarrow> i < j)"
proof -
  have tr: "tr = sort_key timestamp (getQueue (queue_blob q))"
    using assms(6) processQueue_trace[OF assms(1,2)] by simp
  have srt: "sorted (map timestamp tr)" by (simp add: tr)
  have order: "i < j" if "i < length tr" "j < length tr" "tr ! i = a" "tr ! j = b" for i j
    using sorted_key_positions[OF srt that(1,2)] that(3,4) assms(5) by simp
  from assms(3,4) have "a \<in> set tr" "b \<in> set tr" by (simp_all add: tr)
  then obtain i j where ij: "i < length tr" "tr ! i = a" "j < length tr" "tr ! j = b"
    by (auto simp: in_set_conv_nth)
  from order[OF ij(1,3,2,4)] ij have "\<exists>i j. i < j \<and> j < length tr \<and> tr ! i = a \<and> tr ! j = b"
    by blast
  with order show ?thesis by blast
qed

theorem replay_in_timestamp_order_witness:
  "\<not> isSyncing queue_ba \<and> or_false (Some True)
   \<and> op_a \<in> set (getQueue (queue_blob queue_ba))
   \<and> op_b \<in> set (getQueue (queue_blob queue_ba))
   \<and> timestamp op_a < timestamp op_b
   \<and> getQueue (queue_blob queue_ba) = [op_b, op_a]
   \<and> (\<exists>i j. i < j
        \<and> j < length (dr_trace (processQueue always_ok (Some True) queue_ba networkStatus ()))
        \<and> dr_trace (processQueue always_ok (Some True) queue_ba networkStatus ()) ! i = op_a
        \<and> dr_trace (processQueue always_ok (Some True) queue_ba networkStatus ()) ! j = op_b)"
proof -
  have h1: "\<not> isSyncing queue_ba" by (simp add: queue_ba_def)
  have h2: "or_false (Some True)" by (simp add: or_false_def)
  have h3: "op_a \<in> set (getQueue (queue_blob queue_ba))" by (simp add: queue_ba_def)
  have h4: "op_b \<in> set (getQueue (queue_blob queue_ba))" by (simp add: queue_ba_def)
  have h5: "timestamp op_a < timestamp op_b" by (simp add: op_a_def op_b_def)
  have h6: "getQueue (queue_blob queue_ba) = [op_b, op_a]" by (simp add: queue_ba_def)
  from replay_in_timestamp_order[OF h1 h2 h3 h4 h5 refl, of always_ok networkStatus "()"]
    h1 h2 h3 h4 h5 h6
  show ?thesis by blast
qed

text \<open>
  A call that finds the flag up, and a call whose connectivity re-check reports
  unreachable, return \<^verbatim>\<open>{success: 0, failed: 0}\<close>, invoke the executor on
  nothing, and leave the persisted queue, the flag and the executor's world as
  they were.
\<close>

lemma processQueue_refuses:
  assumes "isSyncing q \<or> \<not> or_false probe"
  shows "dr_success (processQueue ex probe q m x) = 0
       \<and> dr_failed (processQueue ex probe q m x) = 0
       \<and> dr_trace (processQueue ex probe q m x) = []
       \<and> dr_queue (processQueue ex probe q m x) = q
       \<and> dr_ext (processQueue ex probe q m x) = x"
  using assms by (auto simp: processQueue_def checkConnection_def Let_def)

section \<open>Overlapping calls of \<^verbatim>\<open>processQueue\<close>\<close>

text \<open>A call that is resumed with nothing in between does what \<^verbatim>\<open>processQueue\<close> does.\<close>

lemma process_operation_trace_indep:
  "process_operation ex operation (st\<lparr>ds_trace := t\<rparr>)
     = (process_operation ex operation st)\<lparr>ds_trace := t @ [operation]\<rparr>"
  by (simp add: process_operation_def Let_def split: prod.splits exec_result.splits option.splits)

lemma process_loop_trace_indep:
  "process_loop ex ops (st\<lparr>ds_trace := t\<rparr>) = (process_loop ex ops st)\<lparr>ds_trace := t @ ops\<rparr>"
proof (induction ops arbitrary: st t)
  case Nil
  then show ?case by simp
next
  case (Cons o1 rest)
  have "process_loop ex (o1 # rest) (st\<lparr>ds_trace := t\<rparr>)
          = process_loop ex rest ((process_operation ex o1 st)\<lparr>ds_trace := t @ [o1]\<rparr>)"
    by (simp add: process_operation_trace_indep)
  also have "\<dots> = (process_loop ex rest (process_operation ex o1 st))\<lparr>ds_trace := (t @ [o1]) @ rest\<rparr>"
    by (rule Cons.IH)
  finally show ?case by simp
qed

lemma pq_steps_loop:
  "pq_steps ex probe (Suc (length ops)) (Looping ops s f, w) =
     (let st = process_loop ex ops
                 \<lparr>ds_blob = queue_blob (w_queue w), ds_success = s, ds_failed = f,
                  ds_ext = w_ext w, ds_trace = w_trace w\<rparr>
      in (Finished (ds_success st) (ds_failed st),
          w\<lparr>w_queue := (w_queue w)\<lparr>queue_blob := ds_blob st, isSyncing := False\<rparr>,
            w_ext := ds_ext st, w_trace := ds_trace st\<rparr>))"
proof (induction ops arbitrary: s f w)
  case Nil
  show ?case by simp
next
  case (Cons o1 rest)
  let ?st = "process_operation ex o1
               \<lparr>ds_blob = queue_blob (w_queue w), ds_success = s, ds_failed = f,
                ds_ext = w_ext w, ds_trace = w_trace w\<rparr>"
  let ?w = "w\<lparr>w_queue := (w_queue w)\<lparr>queue_blob := ds_blob ?st\<rparr>,
              w_ext := ds_ext ?st, w_trace := ds_trace ?st\<rparr>"
  have a: "pq_steps ex probe (Suc (length (o1 # rest))) (Looping (o1 # rest) s f, w)
          = pq_steps ex probe (Suc (length rest)) (Looping rest (ds_success ?st) (ds_failed ?st), ?w)"
    unfolding length_Cons pq_steps.simps(2)[of ex probe "Suc (length rest)"]
    by (simp only: fst_conv snd_conv pq_resume.simps Let_def)
  have eta: "\<lparr>ds_blob = ds_blob ?st, ds_success = ds_success ?st, ds_failed = ds_failed ?st,
              ds_ext = ds_ext ?st, ds_trace = ds_trace ?st\<rparr> = ?st"
    by (cases ?st) simp
  show ?case
    unfolding a Cons.IH[of "ds_success ?st" "ds_failed ?st" ?w]
    by (simp add: Let_def eta del: pq_steps.simps)
qed

lemma pq_alone:
  assumes "\<not> isSyncing (w_queue w)" and "or_false probe"
    and "r = processQueue ex probe (w_queue w) (w_net w) (w_ext w)"
  shows "pq_steps ex probe (2 + length (getQueue (queue_blob (w_queue w)))) (pq_enter w, w) =
     (Finished (dr_success r) (dr_failed r),
      \<lparr>w_queue = dr_queue r, w_net = dr_net r, w_ext = dr_ext r,
       w_trace = w_trace w @ dr_trace r\<rparr>)"
proof -
  let ?ops = "sort_key timestamp (getQueue (queue_blob (w_queue w)))"
  let ?w1 = "w\<lparr>w_net := (w_net w)\<lparr>isConnected := True\<rparr>,
               w_queue := (w_queue w)\<lparr>isSyncing := True\<rparr>\<rparr>"
  let ?init = "\<lparr>ds_blob = queue_blob (w_queue w), ds_success = 0, ds_failed = 0,
                ds_ext = w_ext w, ds_trace = []\<rparr>"
  have first: "pq_resume ex probe (pq_enter w) w = (Looping ?ops 0 0, ?w1)"
    using assms(1,2) by (simp add: pq_enter_def checkConnection_def)
  have a: "pq_steps ex probe (2 + length (getQueue (queue_blob (w_queue w)))) (pq_enter w, w)
          = pq_steps ex probe (Suc (length ?ops)) (Looping ?ops 0 0, ?w1)"
    using pq_steps.simps(2)[of ex probe "Suc (length ?ops)" "(pq_enter w, w)"]
    by (simp add: first del: pq_steps.simps)
  have t: "process_loop ex ?ops (?init\<lparr>ds_trace := w_trace w\<rparr>)
             = (process_loop ex ?ops ?init)\<lparr>ds_trace := w_trace w @ ?ops\<rparr>"
    by (rule process_loop_trace_indep)
  show ?thesis
    unfolding a pq_steps_loop
    using t
    by (simp add: assms(3) processQueue_runs[OF assms(1,2)] Let_def process_loop_trace
          del: pq_steps.simps)
qed

text \<open>
  C6 fails for a second call that arrives while the first call awaits its
  connectivity probe. On a queue holding the one operation \<open>op_a\<close>, with the
  network reachable and an executor that succeeds: the first call has entered and
  awaits the probe; the second call enters, finds the flag still down and does
  not return; both calls resume, both hand \<open>op_a\<close> to the executor, and both
  return \<^verbatim>\<open>{success: 1, failed: 0}\<close>.
\<close>

theorem second_call_passes_guard:
  "pq_enter world_a = Probing
   \<and> fst overlap = Finished 1 0
   \<and> fst (snd overlap) = Finished 1 0
   \<and> w_trace (snd (snd overlap)) = [op_a, op_a]
   \<and> queue_blob (w_queue (snd (snd overlap))) = Some []"
  by (simp add: overlap_def pq_enter_def world_a_def checkConnection_def or_false_def
        always_ok_def process_operation_def removeFromQueue_def saveQueue_def Let_def
        op_a_def)

section \<open>Retries\<close>

lemma find_filter_other: "(\<And>x. P x \<Longrightarrow> Q x) \<Longrightarrow> find P (filter Q xs) = find P xs"
  by (induction xs) auto

lemma find_update_other:
  "\<not> P y \<Longrightarrow> i < length xs \<Longrightarrow> \<not> P (xs ! i) \<Longrightarrow> find P (xs[i := y]) = find P xs"
proof (induction xs arbitrary: i)
  case Nil
  then show ?case by simp
next
  case (Cons x xs)
  then show ?case by (cases i) auto
qed

lemma find_update_first:
  "findIndex P xs = Some i \<Longrightarrow> P y \<Longrightarrow> find P (xs[i := y]) = Some y"
proof (induction xs arbitrary: i)
  case Nil
  then show ?case by simp
next
  case (Cons x xs)
  then show ?case by (cases "P x") (auto split: option.splits)
qed

lemma find_filter_not: "find P (filter (\<lambda>x. \<not> P x) xs) = None"
  by (simp add: find_None_iff)

lemma findIndex_find_None: "findIndex P xs = None \<longleftrightarrow> find P xs = None"
  by (auto simp: findIndex_None find_None_iff)

lemma process_operation_lookup_other:
  assumes "op_id operation \<noteq> oid"
  shows "lookup_op oid (ds_blob (process_operation ex operation st)) = lookup_op oid (ds_blob st)"
proof -
  let ?P = "\<lambda>op. op_id op = oid"
  have rm: "find ?P (filter (\<lambda>op. op_id op \<noteq> op_id operation) xs) = find ?P xs"
    for xs :: "SyncOperation list"
    using assms by (intro find_filter_other) auto
  have up: "find ?P (xs[i := operation\<lparr>retries := Suc (retries operation)\<rparr>]) = find ?P xs"
    if "findIndex (\<lambda>op. op_id op = op_id operation) xs = Some i"
    for xs :: "SyncOperation list" and i
    using findIndex_Some[OF that] assms by (intro find_update_other) auto
  show ?thesis
    by (auto simp: process_operation_def Let_def lookup_op_def removeFromQueue_def rm up
             split: prod.splits exec_result.splits option.splits)
qed

lemma process_operation_lookup_self:
  assumes "fst (ex (ds_ext st) operation) = Returned False"
    and "lookup_op (op_id operation) (ds_blob st) \<noteq> None"
  shows "lookup_op (op_id operation) (ds_blob (process_operation ex operation st)) =
     (if retries operation + 1 \<ge> 3 then None
      else Some (operation\<lparr>retries := retries operation + 1\<rparr>))"
proof -
  let ?P = "\<lambda>op. op_id op = op_id operation"
  let ?q = "getQueue (ds_blob st)"
  from assms(2) obtain i where i: "findIndex ?P ?q = Some i"
    by (cases "findIndex ?P ?q") (simp_all add: lookup_op_def findIndex_find_None)
  have up: "find ?P (?q[i := operation\<lparr>retries := Suc (retries operation)\<rparr>])
              = Some (operation\<lparr>retries := Suc (retries operation)\<rparr>)"
    by (rule find_update_first[OF i]) simp
  have rm: "find ?P (filter (\<lambda>op. op_id op \<noteq> op_id operation) ?q) = None"
    using find_filter_not[of ?P ?q] by simp
  obtain x' where ex: "ex (ds_ext st) operation = (Returned False, x')"
    using assms(1) by (cases "ex (ds_ext st) operation") simp
  show ?thesis
    by (simp add: process_operation_def Let_def ex lookup_op_def removeFromQueue_def i up rm)
qed

lemma process_operation_ids:
  assumes "distinct (map op_id (getQueue (ds_blob st)))"
  shows "distinct (map op_id (getQueue (ds_blob (process_operation ex operation st))))"
proof -
  let ?q = "getQueue (ds_blob st)"
  have rm: "distinct (map op_id (filter (\<lambda>op. op_id op \<noteq> k) ?q))" for k
    using assms by (rule distinct_map_filter)
  have up: "distinct (map op_id (?q[i := operation\<lparr>retries := Suc (retries operation)\<rparr>]))"
    if "findIndex (\<lambda>op. op_id op = op_id operation) ?q = Some i" for i
    using findIndex_Some[OF that] assms by (simp add: map_update_same_key)
  show ?thesis
    using assms
    by (auto simp: process_operation_def Let_def removeFromQueue_def rm up
             split: prod.splits exec_result.splits option.splits)
qed

lemma process_loop_ids:
  "distinct (map op_id (getQueue (ds_blob st))) \<Longrightarrow>
   distinct (map op_id (getQueue (ds_blob (process_loop ex ops st))))"
  by (induction ops arbitrary: st) (simp_all add: process_operation_ids)

lemma process_loop_lookup_other:
  "\<forall>operation \<in> set ops. op_id operation \<noteq> oid \<Longrightarrow>
   lookup_op oid (ds_blob (process_loop ex ops st)) = lookup_op oid (ds_blob st)"
  by (induction ops arbitrary: st) (simp_all add: process_operation_lookup_other)

lemma process_loop_lookup_self:
  assumes "distinct (map op_id ops)" and "operation \<in> set ops"
    and "\<forall>x. fst (ex x operation) = Returned False"
    and "lookup_op (op_id operation) (ds_blob st) \<noteq> None"
  shows "lookup_op (op_id operation) (ds_blob (process_loop ex ops st)) =
     (if retries operation + 1 \<ge> 3 then None
      else Some (operation\<lparr>retries := retries operation + 1\<rparr>))"
  using assms
proof (induction ops arbitrary: st)
  case Nil
  then show ?case by simp
next
  case (Cons o1 rest)
  show ?case
  proof (cases "o1 = operation")
    case True
    with Cons.prems(1) have "op_id operation \<notin> set (map op_id rest)" by simp
    then have "\<forall>o2 \<in> set rest. op_id o2 \<noteq> op_id operation"
      by (metis image_eqI set_map)
    then have "lookup_op (op_id operation) (ds_blob (process_loop ex (o1 # rest) st))
             = lookup_op (op_id operation) (ds_blob (process_operation ex operation st))"
      using True by (simp add: process_loop_lookup_other)
    also have "\<dots> = (if retries operation + 1 \<ge> 3 then None
                      else Some (operation\<lparr>retries := retries operation + 1\<rparr>))"
      using Cons.prems(3,4) by (intro process_operation_lookup_self) simp_all
    finally show ?thesis .
  next
    case False
    with Cons.prems(1,2) have mem: "operation \<in> set rest" and ne: "op_id o1 \<noteq> op_id operation"
      by auto
    have keep: "lookup_op (op_id operation) (ds_blob (process_operation ex o1 st)) \<noteq> None"
      using Cons.prems(4) by (simp add: process_operation_lookup_other[OF ne])
    from Cons.prems(1) have d: "distinct (map op_id rest)" by simp
    from Cons.IH[OF d mem Cons.prems(3) keep] show ?thesis by simp
  qed
qed

lemma exec_results_fst: "map fst (exec_results ex ops x) = ops"
  by (induction ops arbitrary: x) simp_all

lemma exec_results_none:
  assumes "\<forall>operation \<in> set ops. op_id operation \<noteq> oid"
  shows "filter (\<lambda>r. op_id (fst r) = oid) (exec_results ex ops x) = []"
proof -
  have "fst ` set (exec_results ex ops x) = set ops"
    using exec_results_fst[of ex ops x] by (metis set_map)
  with assms show ?thesis by (auto simp: filter_empty_conv)
qed

lemma exec_results_self:
  assumes "distinct (map op_id ops)" and "operation \<in> set ops"
    and "\<forall>x. fst (ex x operation) = Returned False"
  shows "filter (\<lambda>r. op_id (fst r) = op_id operation) (exec_results ex ops x)
           = [(operation, Returned False)]"
  using assms
proof (induction ops arbitrary: x)
  case Nil
  then show ?case by simp
next
  case (Cons o1 rest)
  show ?case
  proof (cases "o1 = operation")
    case True
    with Cons.prems(1) have "op_id operation \<notin> set (map op_id rest)" by simp
    then have "\<forall>o2 \<in> set rest. op_id o2 \<noteq> op_id operation"
      by (metis image_eqI set_map)
    from exec_results_none[OF this] True Cons.prems(3) show ?thesis by simp
  next
    case False
    with Cons.prems(1,2) have mem: "operation \<in> set rest" and ne: "op_id o1 \<noteq> op_id operation"
      by auto
    from Cons.prems(1) have d: "distinct (map op_id rest)" by simp
    from Cons.IH[OF d mem Cons.prems(3)] ne show ?thesis by simp
  qed
qed

lemma failed_split:
  "length (filter counts_failed rs) =
     failed_among_others oid rs
     + length (filter counts_failed (filter (\<lambda>r. op_id (fst r) = oid) rs))"
  by (induction rs) (auto simp: failed_among_others_def)

text \<open>One pass over a queue that holds an operation the executor does not handle.\<close>

lemma drain_pass_not_handled:
  assumes idle: "\<not> isSyncing q" and conn: "or_false probe"
    and ids: "distinct (map op_id (getQueue (queue_blob q)))"
    and mem: "operation \<in> set (getQueue (queue_blob q))"
    and nh: "\<forall>x. fst (ex x operation) = Returned False"
    and r: "r = processQueue ex probe q m x"
  shows "lookup_op (op_id operation) (queue_blob (dr_queue r)) =
           (if retries operation + 1 \<ge> 3 then None
            else Some (operation\<lparr>retries := retries operation + 1\<rparr>))"
    and "dr_failed r =
           failed_among_others (op_id operation)
             (exec_results ex (sort_key timestamp (getQueue (queue_blob q))) x)
           + (if retries operation + 1 \<ge> 3 then 1 else 0)"
    and "distinct (map op_id (getQueue (queue_blob (dr_queue r))))"
    and "\<not> isSyncing (dr_queue r)"
proof -
  let ?ops = "sort_key timestamp (getQueue (queue_blob q))"
  let ?init = "\<lparr>ds_blob = queue_blob q, ds_success = 0, ds_failed = 0, ds_ext = x, ds_trace = []\<rparr>"
  let ?st = "process_loop ex ?ops ?init"
  have run: "dr_failed r = ds_failed ?st" "queue_blob (dr_queue r) = ds_blob ?st"
    "isSyncing (dr_queue r) = False"
    unfolding r processQueue_runs[OF idle conn] by (simp_all add: Let_def)
  have d: "distinct (map op_id ?ops)"
    using ids by (simp add: distinct_map)
  have m: "operation \<in> set ?ops" using mem by simp
  have present: "lookup_op (op_id operation) (ds_blob ?init) \<noteq> None"
    using mem by (auto simp: lookup_op_def find_None_iff)
  show "lookup_op (op_id operation) (queue_blob (dr_queue r)) =
           (if retries operation + 1 \<ge> 3 then None
            else Some (operation\<lparr>retries := retries operation + 1\<rparr>))"
    unfolding run using d m nh present by (rule process_loop_lookup_self)
  have "ds_failed ?st = length (filter counts_failed (exec_results ex ?ops x))"
    by (simp add: process_loop_failed)
  also have "\<dots> = failed_among_others (op_id operation) (exec_results ex ?ops x)
       + length (filter counts_failed [(operation, Returned False)])"
    by (simp add: failed_split[of _ "op_id operation"]
          exec_results_self[where ex = ex and operation = operation, OF d m nh])
  finally show "dr_failed r =
           failed_among_others (op_id operation) (exec_results ex ?ops x)
           + (if retries operation + 1 \<ge> 3 then 1 else 0)"
    unfolding run by simp
  show "distinct (map op_id (getQueue (queue_blob (dr_queue r))))"
    unfolding run using ids by (intro process_loop_ids) simp
  show "\<not> isSyncing (dr_queue r)" by (simp add: run)
qed

text \<open>
  C5. Take a queue with distinct operation identifiers and in it an operation
  with retry counter 0, and run three drain passes in a row in each of which the
  executor returns \<^verbatim>\<open>false\<close> for that operation. After the first pass the
  operation is in the persisted queue with counter 1, after the second with
  counter 2, and in both passes the returned failure count is the count of the
  failures among the other operations. After the third pass no operation with
  that identifier is in the queue, and the returned failure count is one more than
  the count of the failures among the other operations.
\<close>

theorem retry_exhaustion:
  fixes ex1 ex2 ex3 :: "'x \<Rightarrow> SyncOperation \<Rightarrow> exec_result \<times> 'x"
  assumes ids: "distinct (map op_id (getQueue (queue_blob q0)))"
    and mem: "operation \<in> set (getQueue (queue_blob q0))"
    and fresh: "retries operation = 0"
    and idle: "\<not> isSyncing q0"
    and conn: "or_false p1" "or_false p2" "or_false p3"
    and nh1: "\<forall>x. fst (ex1 x operation) = Returned False"
    and nh2: "\<forall>x. fst (ex2 x (operation\<lparr>retries := 1\<rparr>)) = Returned False"
    and nh3: "\<forall>x. fst (ex3 x (operation\<lparr>retries := 2\<rparr>)) = Returned False"
    and r1: "r1 = processQueue ex1 p1 q0 m0 x0"
    and r2: "r2 = processQueue ex2 p2 (dr_queue r1) (dr_net r1) (dr_ext r1)"
    and r3: "r3 = processQueue ex3 p3 (dr_queue r2) (dr_net r2) (dr_ext r2)"
  shows "lookup_op (op_id operation) (queue_blob (dr_queue r1)) = Some (operation\<lparr>retries := 1\<rparr>)
       \<and> dr_failed r1 = failed_among_others (op_id operation)
            (exec_results ex1 (sort_key timestamp (getQueue (queue_blob q0))) x0)
       \<and> lookup_op (op_id operation) (queue_blob (dr_queue r2)) = Some (operation\<lparr>retries := 2\<rparr>)
       \<and> dr_failed r2 = failed_among_others (op_id operation)
            (exec_results ex2 (sort_key timestamp (getQueue (queue_blob (dr_queue r1)))) (dr_ext r1))
       \<and> lookup_op (op_id operation) (queue_blob (dr_queue r3)) = None
       \<and> dr_failed r3 = failed_among_others (op_id operation)
            (exec_results ex3 (sort_key timestamp (getQueue (queue_blob (dr_queue r2)))) (dr_ext r2)) + 1"
proof -
  let ?o1 = "operation\<lparr>retries := 1\<rparr>"
  let ?o2 = "operation\<lparr>retries := 2\<rparr>"
  note a = drain_pass_not_handled[where ex = ex1 and operation = operation,
             OF idle conn(1) ids mem nh1 r1]
  from a(1) fresh
  have l1: "lookup_op (op_id operation) (queue_blob (dr_queue r1)) = Some ?o1" by simp
  from a(2) fresh
  have f1: "dr_failed r1 = failed_among_others (op_id operation)
            (exec_results ex1 (sort_key timestamp (getQueue (queue_blob q0))) x0)" by simp
  from l1 have mem1: "?o1 \<in> set (getQueue (queue_blob (dr_queue r1)))"
    by (auto simp: lookup_op_def find_Some_iff in_set_conv_nth)
  note b = drain_pass_not_handled[where ex = ex2 and operation = ?o1,
             OF a(4) conn(2) a(3) mem1 nh2 r2]
  from b(1) fresh
  have l2: "lookup_op (op_id operation) (queue_blob (dr_queue r2)) = Some ?o2" by simp
  from b(2) fresh
  have f2: "dr_failed r2 = failed_among_others (op_id operation)
            (exec_results ex2 (sort_key timestamp (getQueue (queue_blob (dr_queue r1)))) (dr_ext r1))"
    by simp
  from l2 have mem2: "?o2 \<in> set (getQueue (queue_blob (dr_queue r2)))"
    by (auto simp: lookup_op_def find_Some_iff in_set_conv_nth)
  note c = drain_pass_not_handled[where ex = ex3 and operation = ?o2,
             OF b(4) conn(3) b(3) mem2 nh3 r3]
  from c(1) fresh
  have l3: "lookup_op (op_id operation) (queue_blob (dr_queue r3)) = None" by simp
  from c(2) fresh
  have f3: "dr_failed r3 = failed_among_others (op_id operation)
            (exec_results ex3 (sort_key timestamp (getQueue (queue_blob (dr_queue r2)))) (dr_ext r2)) + 1"
    by simp
  from l1 f1 l2 f2 l3 f3 show ?thesis by blast
qed

lemma pass1_value:
  "pass1 = \<lparr>dr_success = 0, dr_failed = 0,
            dr_queue = \<lparr>queue_blob = Some [op_b\<lparr>retries := 1\<rparr>, op_a\<lparr>retries := 1\<rparr>],
                        isSyncing = False\<rparr>,
            dr_net = networkStatus, dr_ext = (), dr_trace = [op_a, op_b]\<rparr>"
  by (simp add: pass1_def processQueue_def checkConnection_def or_false_def Let_def
        queue_ba_def op_a_def op_b_def never_handles_def process_operation_def
        networkStatus_def saveQueue_def)

lemma pass2_value:
  "pass2 = \<lparr>dr_success = 0, dr_failed = 0,
            dr_queue = \<lparr>queue_blob = Some [op_b\<lparr>retries := 2\<rparr>, op_a\<lparr>retries := 2\<rparr>],
                        isSyncing = False\<rparr>,
            dr_net = networkStatus, dr_ext = (),
            dr_trace = [op_a\<lparr>retries := 1\<rparr>, op_b\<lparr>retries := 1\<rparr>]\<rparr>"
  by (simp add: pass2_def pass1_value processQueue_def checkConnection_def or_false_def Let_def
        op_a_def op_b_def never_handles_def process_operation_def
        networkStatus_def saveQueue_def)

lemma pass3_value:
  "pass3 = \<lparr>dr_success = 0, dr_failed = 2,
            dr_queue = \<lparr>queue_blob = Some [], isSyncing = False\<rparr>,
            dr_net = networkStatus, dr_ext = (),
            dr_trace = [op_a\<lparr>retries := 2\<rparr>, op_b\<lparr>retries := 2\<rparr>]\<rparr>"
  by (simp add: pass3_def pass2_value processQueue_def checkConnection_def or_false_def Let_def
        op_a_def op_b_def never_handles_def process_operation_def
        networkStatus_def saveQueue_def removeFromQueue_def)

theorem retry_exhaustion_witness:
  "distinct (map op_id (getQueue (queue_blob queue_ba)))
   \<and> op_a \<in> set (getQueue (queue_blob queue_ba))
   \<and> retries op_a = 0 \<and> \<not> isSyncing queue_ba \<and> or_false (Some True)
   \<and> (\<forall>x. fst (never_handles x op_a) = Returned False)
   \<and> (\<forall>x. fst (never_handles x (op_a\<lparr>retries := 1\<rparr>)) = Returned False)
   \<and> (\<forall>x. fst (never_handles x (op_a\<lparr>retries := 2\<rparr>)) = Returned False)
   \<and> lookup_op (op_id op_a) (queue_blob (dr_queue pass1)) = Some (op_a\<lparr>retries := 1\<rparr>)
   \<and> dr_failed pass1 = 0
   \<and> lookup_op (op_id op_a) (queue_blob (dr_queue pass2)) = Some (op_a\<lparr>retries := 2\<rparr>)
   \<and> dr_failed pass2 = 0
   \<and> lookup_op (op_id op_a) (queue_blob (dr_queue pass3)) = None
   \<and> dr_failed pass3 = 2"
proof -
  have h1: "distinct (map op_id (getQueue (queue_blob queue_ba)))"
    by (simp add: queue_ba_def op_a_def op_b_def)
  have h2: "op_a \<in> set (getQueue (queue_blob queue_ba))" by (simp add: queue_ba_def)
  have h3: "retries op_a = 0" by (simp add: op_a_def)
  have h4: "\<not> isSyncing queue_ba" by (simp add: queue_ba_def)
  have h5: "or_false (Some True)" by (simp add: or_false_def)
  have n1: "\<forall>x. fst (never_handles x op_a) = Returned False"
    and n2: "\<forall>x. fst (never_handles x (op_a\<lparr>retries := 1\<rparr>)) = Returned False"
    and n3: "\<forall>x. fst (never_handles x (op_a\<lparr>retries := 2\<rparr>)) = Returned False"
    by (simp_all add: never_handles_def)
  note t = retry_exhaustion[where ?ex1.0 = never_handles and ?ex2.0 = never_handles
             and ?ex3.0 = never_handles and operation = op_a,
             OF h1 h2 h3 h4 h5 h5 h5 n1 n2 n3 pass1_def pass2_def pass3_def]
  have counts: "dr_failed pass1 = 0" "dr_failed pass2 = 0" "dr_failed pass3 = 2"
    by (simp_all add: pass1_value pass2_value pass3_value)
  from t h1 h2 h3 h4 h5 n1 n2 n3 counts show ?thesis by blast
qed

section \<open>A pending CREATE across drain passes\<close>

lemma distinct_map_eq:
  "distinct (map f xs) \<Longrightarrow> x \<in> set xs \<Longrightarrow> y \<in> set xs \<Longrightarrow> f x = f y \<Longrightarrow> x = y"
  by (auto simp: distinct_map dest: inj_onD)

lemma in_set_update_other:
  "x \<in> set xs \<Longrightarrow> x \<noteq> xs ! i \<Longrightarrow> x \<in> set (xs[i := y])"
  by (metis in_set_conv_nth length_list_update nth_list_update_neq)

lemma filter_none_keeps_all: "filter P xs = [] \<Longrightarrow> filter (\<lambda>x. \<not> P x) xs = xs"
  by (induction xs) (auto split: if_splits)

lemma filter_update_single:
  assumes "i < length q" and "filter P q = [q ! i]" and "P y"
  shows "filter P (q[i := y]) = [y]"
proof -
  have q: "q = take i q @ q ! i # drop (Suc i) q"
    using assms(1) by (rule id_take_nth_drop)
  have "q ! i \<in> set (filter P q)" using assms(2) by simp
  then have p: "P (q ! i)" by simp
  have "filter P q = filter P (take i q) @ q ! i # filter P (drop (Suc i) q)"
    using p by (subst q) simp
  with assms(2) have "filter P (take i q) = []" "filter P (drop (Suc i) q) = []"
    by (simp_all add: append_eq_Cons_conv)
  with assms(1,3) show ?thesis by (simp add: upd_conv_take_nth_drop)
qed

lemma addToQueue_ids:
  assumes "distinct (map op_id (getQueue blob))" and "nid \<notin> set (map op_id (getQueue blob))"
  shows "distinct (map op_id (getQueue (snd (addToQueue nid now ty e eid d blob))))"
proof (cases "findIndex (same_entity e eid) (getQueue blob)")
  case None
  with assms show ?thesis by (simp add: addToQueue_def)
next
  case (Some i)
  let ?q = "getQueue blob"
  from findIndex_Some[OF Some] have i: "i < length ?q" by simp
  have spl: "distinct (map op_id (splice1 i ?q))"
    using assms(1) by (simp add: map_splice1 distinct_splice1)
  have rep: "distinct (map op_id (?q[i := x]))" if "op_id x = nid" for x
    using assms that by (simp add: map_update distinct_list_update)
  have mrg: "distinct (map op_id (?q[i := x]))" if "op_id x = op_id (?q ! i)" for x
    using assms(1) i that by (simp add: map_update_same_key)
  show ?thesis
    unfolding addToQueue_def Let_def Some
    using assms(1) by (simp add: spl rep mrg)
qed

lemma addToQueue_delete_removes:
  assumes "pending_create e eid (getQueue blob)"
  shows "getQueue (snd (addToQueue nid now DELETE e eid d blob))
           = filter (\<lambda>operation. \<not> same_entity e eid operation) (getQueue blob)"
proof -
  let ?q = "getQueue blob"
  let ?P = "same_entity e eid"
  from assms obtain i where i: "findIndex ?P ?q = Some i"
    and c: "op_type (?q ! i) = CREATE"
    and r: "filter ?P (drop (Suc i) ?q) = []"
    by (rule pending_createD)
  from findIndex_Some[OF i] have il: "i < length ?q" and p: "?P (?q ! i)" by simp_all
  have t: "filter ?P (take i ?q) = []" by (rule findIndex_filter_take[OF i])
  note keep = filter_none_keeps_all[of ?P]
  have "filter (\<lambda>x. \<not> ?P x) ?q
          = filter (\<lambda>x. \<not> ?P x) (take i ?q @ ?q ! i # drop (Suc i) ?q)"
    using il by (simp add: id_take_nth_drop[symmetric])
  also have "\<dots> = take i ?q @ drop (Suc i) ?q"
    using p by (simp add: keep[OF t] keep[OF r])
  finally have "filter (\<lambda>x. \<not> ?P x) ?q = splice1 i ?q" by (simp add: splice1_def)
  then show ?thesis
    unfolding addToQueue_def Let_def i by (simp add: c)
qed

lemma process_operation_keeps_pending:
  assumes d: "distinct (map op_id (getQueue (ds_blob st)))"
    and p: "pending_create e eid (getQueue (ds_blob st))"
    and m: "o1 \<in> set (getQueue (ds_blob st))"
    and sp: "spares e eid (o1, fst (ex (ds_ext st) o1))"
  shows "pending_create e eid (getQueue (ds_blob (process_operation ex o1 st)))"
    and "\<forall>o2 \<in> set (getQueue (ds_blob st)). op_id o2 \<noteq> op_id o1 \<longrightarrow>
           o2 \<in> set (getQueue (ds_blob (process_operation ex o1 st)))"
proof -
  let ?q = "getQueue (ds_blob st)"
  let ?P = "same_entity e eid"
  let ?o1' = "o1\<lparr>retries := Suc (retries o1)\<rparr>"
  obtain res x' where ex: "ex (ds_ext st) o1 = (res, x')" by (cases "ex (ds_ext st) o1")
  from p obtain c where c: "filter ?P ?q = [c]" "op_type c = CREATE"
    by (auto simp: pending_create_def split: list.splits)
  have rm: "pending_create e eid (filter (\<lambda>x. op_id x \<noteq> op_id o1) ?q)" if "\<not> ?P o1"
  proof -
    have "\<forall>x \<in> set ?q. ?P x \<longrightarrow> op_id x \<noteq> op_id o1"
      using distinct_map_eq[OF d _ m] that by blast
    then have "filter ?P (filter (\<lambda>x. op_id x \<noteq> op_id o1) ?q) = filter ?P ?q"
      by (auto simp: filter_filter intro: filter_cong)
    with p show ?thesis by (simp add: pending_create_def)
  qed
  have up: "pending_create e eid (?q[idx := ?o1'])"
    and upm: "\<forall>o2 \<in> set ?q. op_id o2 \<noteq> op_id o1 \<longrightarrow> o2 \<in> set (?q[idx := ?o1'])"
    if idx: "findIndex (\<lambda>x. op_id x = op_id o1) ?q = Some idx" for idx
  proof -
    from findIndex_Some[OF idx] have il: "idx < length ?q" and same: "op_id (?q ! idx) = op_id o1"
      by simp_all
    have at: "?q ! idx = o1"
      using distinct_map_eq[OF d _ m same] il by simp
    show "pending_create e eid (?q[idx := ?o1'])"
    proof (cases "?P o1")
      case True
      with m have "o1 \<in> set (filter ?P ?q)" by simp
      with c have "o1 = c" by simp
      with c at have "filter ?P ?q = [?q ! idx]" by simp
      moreover have "?P ?o1'" using True by (simp add: same_entity_def)
      ultimately have "filter ?P (?q[idx := ?o1']) = [?o1']"
        using il by (intro filter_update_single) simp_all
      with c \<open>o1 = c\<close> show ?thesis by (simp add: pending_create_def)
    next
      case False
      then have "\<not> ?P ?o1'" by (simp add: same_entity_def)
      with False at il have "filter ?P (?q[idx := ?o1']) = filter ?P ?q"
        by (intro filter_update_other) simp_all
      with p show ?thesis by (simp add: pending_create_def)
    qed
    show "\<forall>o2 \<in> set ?q. op_id o2 \<noteq> op_id o1 \<longrightarrow> o2 \<in> set (?q[idx := ?o1'])"
      using at by (auto intro: in_set_update_other)
  qed
  have found: "findIndex (\<lambda>x. op_id x = op_id o1) ?q \<noteq> None"
    using m by (auto simp: findIndex_None)
  show "pending_create e eid (getQueue (ds_blob (process_operation ex o1 st)))"
  proof (cases res)
    case Raised
    with p show ?thesis by (simp add: process_operation_def ex)
  next
    case (Returned ok)
    show ?thesis
    proof (cases "ok \<or> 3 \<le> retries o1 + 1")
      case True
      with sp Returned ex have "\<not> ?P o1" by (auto split: if_splits)
      from rm[OF this] True Returned show ?thesis
        by (auto simp: process_operation_def ex removeFromQueue_def Let_def)
    next
      case False
      from found obtain idx where idx: "findIndex (\<lambda>x. op_id x = op_id o1) ?q = Some idx"
        by auto
      from up[OF idx] False Returned show ?thesis
        by (simp add: process_operation_def ex Let_def idx)
    qed
  qed
  show "\<forall>o2 \<in> set ?q. op_id o2 \<noteq> op_id o1 \<longrightarrow>
           o2 \<in> set (getQueue (ds_blob (process_operation ex o1 st)))"
  proof (cases res)
    case Raised
    then show ?thesis by (simp add: process_operation_def ex)
  next
    case (Returned ok)
    show ?thesis
    proof (cases "ok \<or> 3 \<le> retries o1 + 1")
      case True
      with Returned show ?thesis
        by (auto simp: process_operation_def ex removeFromQueue_def Let_def)
    next
      case False
      from found obtain idx where idx: "findIndex (\<lambda>x. op_id x = op_id o1) ?q = Some idx"
        by auto
      from upm[OF idx] False Returned show ?thesis
        by (simp add: process_operation_def ex Let_def idx)
    qed
  qed
qed

lemma process_loop_keeps_pending:
  assumes "distinct (map op_id (getQueue (ds_blob st)))"
    and "pending_create e eid (getQueue (ds_blob st))"
    and "set ops \<subseteq> set (getQueue (ds_blob st))"
    and "distinct (map op_id ops)"
    and "list_all (spares e eid) (exec_results ex ops (ds_ext st))"
  shows "pending_create e eid (getQueue (ds_blob (process_loop ex ops st)))"
  using assms
proof (induction ops arbitrary: st)
  case Nil
  then show ?case by simp
next
  case (Cons o1 rest)
  let ?st = "process_operation ex o1 st"
  from Cons.prems(3) have m: "o1 \<in> set (getQueue (ds_blob st))" by simp
  from Cons.prems(5) have sp: "spares e eid (o1, fst (ex (ds_ext st) o1))" by simp
  note k = process_operation_keeps_pending[where ex = ex and st = st and ?o1.0 = o1,
             OF Cons.prems(1,2) m sp]
  have d': "distinct (map op_id (getQueue (ds_blob ?st)))"
    using Cons.prems(1) by (rule process_operation_ids)
  have others: "\<forall>o2 \<in> set rest. op_id o2 \<noteq> op_id o1"
    using Cons.prems(4) by (metis distinct.simps(2) image_eqI list.simps(9) set_map)
  have sub: "set rest \<subseteq> set (getQueue (ds_blob ?st))"
    using Cons.prems(3) others k(2) by auto
  have rest: "list_all (spares e eid) (exec_results ex rest (ds_ext ?st))"
    using Cons.prems(5) by (simp add: process_operation_ext)
  from Cons.prems(4) have dr: "distinct (map op_id rest)" by simp
  from Cons.IH[OF d' k(1) sub dr rest] show ?case by simp
qed

lemma processQueue_keeps_pending:
  assumes d: "distinct (map op_id (getQueue (queue_blob q)))"
    and p: "pending_create e eid (getQueue (queue_blob q))"
    and s: "isSyncing q \<or> \<not> or_false probe
            \<or> list_all (spares e eid)
                 (exec_results ex (sort_key timestamp (getQueue (queue_blob q))) x)"
  shows "pending_create e eid (getQueue (queue_blob (dr_queue (processQueue ex probe q m x))))"
    and "distinct (map op_id (getQueue (queue_blob (dr_queue (processQueue ex probe q m x)))))"
proof -
  let ?ops = "sort_key timestamp (getQueue (queue_blob q))"
  let ?init = "\<lparr>ds_blob = queue_blob q, ds_success = 0, ds_failed = 0, ds_ext = x, ds_trace = []\<rparr>"
  show "pending_create e eid (getQueue (queue_blob (dr_queue (processQueue ex probe q m x))))"
  proof (cases "isSyncing q \<or> \<not> or_false probe")
    case True
    from processQueue_refuses[OF this, of ex m x] p show ?thesis by simp
  next
    case False
    with s have sp: "list_all (spares e eid) (exec_results ex ?ops (ds_ext ?init))" by simp
    from False have run: "\<not> isSyncing q" "or_false probe" by simp_all
    have "pending_create e eid (getQueue (ds_blob (process_loop ex ?ops ?init)))"
      using d p sp by (intro process_loop_keeps_pending) (simp_all add: distinct_map)
    then show ?thesis by (simp add: processQueue_runs[OF run] Let_def)
  qed
  show "distinct (map op_id (getQueue (queue_blob (dr_queue (processQueue ex probe q m x)))))"
  proof (cases "isSyncing q \<or> \<not> or_false probe")
    case True
    from processQueue_refuses[OF this, of ex m x] d show ?thesis by simp
  next
    case False
    then have run: "\<not> isSyncing q" "or_false probe" by simp_all
    have "distinct (map op_id (getQueue (ds_blob (process_loop ex ?ops ?init))))"
      using d by (intro process_loop_ids) simp
    then show ?thesis by (simp add: processQueue_runs[OF run] Let_def)
  qed
qed

lemma step_event_keeps_pending:
  assumes "distinct (map op_id (getQueue (queue_blob (w_queue w))))"
    and "pending_create e eid (getQueue (queue_blob (w_queue w)))"
    and "event_spares e eid ev w"
  shows "pending_create e eid (getQueue (queue_blob (w_queue (step_event ev w))))"
    and "distinct (map op_id (getQueue (queue_blob (w_queue (step_event ev w)))))"
proof -
  show "pending_create e eid (getQueue (queue_blob (w_queue (step_event ev w))))"
  proof (cases ev)
    case (Enqueue c)
    with assms(3) have "call_type c = DELETE \<longrightarrow> (call_entity c, call_entityId c) \<noteq> (e, eid)"
      by auto
    from enqueue_keeps_pending_create[OF assms(2) this] Enqueue show ?thesis by simp
  next
    case (Drain ex probe)
    with assms(3) processQueue_keeps_pending(1)[OF assms(1,2)] show ?thesis
      by (simp add: Let_def)
  qed
  show "distinct (map op_id (getQueue (queue_blob (w_queue (step_event ev w)))))"
  proof (cases ev)
    case (Enqueue c)
    with assms(3) have "call_newId c \<notin> set (map op_id (getQueue (queue_blob (w_queue w))))"
      by simp
    from addToQueue_ids[OF assms(1) this] Enqueue show ?thesis by (simp add: enqueue_def)
  next
    case (Drain ex probe)
    with assms(3) processQueue_keeps_pending(2)[OF assms(1,2)] show ?thesis
      by (simp add: Let_def)
  qed
qed

lemma run_events_keeps_pending:
  assumes "distinct (map op_id (getQueue (queue_blob (w_queue w))))"
    and "pending_create e eid (getQueue (queue_blob (w_queue w)))"
    and "run_spares e eid evs w"
  shows "pending_create e eid (getQueue (queue_blob (w_queue (run_events w evs))))"
  using assms
proof (induction evs arbitrary: w)
  case Nil
  then show ?case by (simp add: run_events_def)
next
  case (Cons ev evs)
  from Cons.prems(3) have ev: "event_spares e eid ev w"
    and rest: "run_spares e eid evs (step_event ev w)" by simp_all
  note k = step_event_keeps_pending[OF Cons.prems(1,2) ev]
  from Cons.IH[OF k(2) k(1) rest] show ?case by (simp add: run_events_def)
qed

text \<open>
  C2, as the code has it. On a queue with distinct operation identifiers that
  holds no operation for the pair, a CREATE for the pair is enqueued. Then comes
  any run of enqueue calls and drain passes that leaves the CREATE alone: no
  DELETE for the pair, and no pass that replays the pair's operation with success
  or brings its retry counter to 3. After the CREATE the queue is the old one
  with the CREATE appended; after the run exactly one operation for the pair is
  queued and it is a CREATE; the DELETE for the pair then removes that operation
  and nothing else, and is not queued itself, so no operation for the pair is
  left. When the DELETE follows the CREATE at once, the queue is the one before
  the two calls.
\<close>

theorem create_then_delete_cancels:
  fixes w :: "'x world"
  assumes unqueued: "(e, eid) \<notin> set (map slot (getQueue (queue_blob (w_queue w))))"
    and ids: "distinct (map op_id (getQueue (queue_blob (w_queue w))))"
    and fresh: "id1 \<notin> set (map op_id (getQueue (queue_blob (w_queue w))))"
    and w1: "w1 = step_event (Enqueue \<lparr>call_newId = id1, call_now = t1, call_type = CREATE,
                call_entity = e, call_entityId = eid, call_data = d1\<rparr>) w"
    and mid: "run_spares e eid mid w1"
    and w2: "w2 = run_events w1 mid"
    and w3: "w3 = step_event (Enqueue \<lparr>call_newId = id2, call_now = t2, call_type = DELETE,
                call_entity = e, call_entityId = eid, call_data = d2\<rparr>) w2"
  shows "getQueue (queue_blob (w_queue w1)) =
           getQueue (queue_blob (w_queue w)) @
             [\<lparr>op_id = id1, op_type = CREATE, entity = e, entityId = eid,
               data = stringify d1, timestamp = t1, retries = 0\<rparr>]
       \<and> pending_create e eid (getQueue (queue_blob (w_queue w2)))
       \<and> getQueue (queue_blob (w_queue w3)) =
           filter (\<lambda>operation. \<not> same_entity e eid operation) (getQueue (queue_blob (w_queue w2)))
       \<and> (e, eid) \<notin> set (map slot (getQueue (queue_blob (w_queue w3))))
       \<and> (mid = [] \<longrightarrow> getQueue (queue_blob (w_queue w3)) = getQueue (queue_blob (w_queue w)))"
proof -
  let ?q = "getQueue (queue_blob (w_queue w))"
  let ?c = "\<lparr>op_id = id1, op_type = CREATE, entity = e, entityId = eid,
             data = stringify d1, timestamp = t1, retries = 0\<rparr>"
  have "\<forall>x \<in> set ?q. \<not> same_entity e eid x"
  proof (intro ballI notI)
    fix x assume "x \<in> set ?q" "same_entity e eid x"
    then have "(e, eid) \<in> set (map slot ?q)" by (force simp: same_entity_slot)
    with unqueued show False by simp
  qed
  then have none: "findIndex (same_entity e eid) ?q = None"
    by (simp add: findIndex_None)
  have q1: "getQueue (queue_blob (w_queue w1)) = ?q @ [?c]"
    by (simp add: w1 enqueue_def addToQueue_def none)
  have empty: "filter (same_entity e eid) ?q = []"
    using none by (simp add: findIndex_None filter_empty_conv)
  then have p1: "pending_create e eid (getQueue (queue_blob (w_queue w1)))"
    by (simp add: q1 pending_create_def same_entity_def)
  have d1: "distinct (map op_id (getQueue (queue_blob (w_queue w1))))"
    using ids fresh by (simp add: q1)
  have p2: "pending_create e eid (getQueue (queue_blob (w_queue w2)))"
    unfolding w2 using d1 p1 mid by (rule run_events_keeps_pending)
  have q3: "getQueue (queue_blob (w_queue w3)) =
           filter (\<lambda>operation. \<not> same_entity e eid operation) (getQueue (queue_blob (w_queue w2)))"
    using addToQueue_delete_removes[OF p2] by (simp add: w3 enqueue_def)
  have gone: "(e, eid) \<notin> set (map slot (getQueue (queue_blob (w_queue w3))))"
    unfolding q3 by (auto simp: same_entity_slot)
  have keep: "filter (\<lambda>x. \<not> same_entity e eid x) ?q = ?q"
    using empty by (rule filter_none_keeps_all)
  have "getQueue (queue_blob (w_queue w3)) = ?q" if "mid = []"
  proof -
    have "same_entity e eid ?c" by (simp add: same_entity_def)
    then have "filter (\<lambda>x. \<not> same_entity e eid x) (?q @ [?c]) = ?q"
      by (simp add: keep)
    with that show ?thesis by (simp add: q3 w2 run_events_def q1)
  qed
  with q1 p2 q3 gone show ?thesis by blast
qed

lemma kept_create_value:
  "kept_create =
     \<lparr>w_queue = \<lparr>queue_blob = Some
        [op_a, \<lparr>op_id = ''5-e'', op_type = CREATE, entity = container, entityId = ''temp-7'',
                data = PNull, timestamp = 50, retries = 0\<rparr>], isSyncing = False\<rparr>,
      w_net = networkStatus, w_ext = (), w_trace = []\<rparr>"
  by (simp add: kept_create_def world_a_def create_call_def enqueue_def addToQueue_def
        same_entity_def op_a_def stringify_def saveQueue_def)

lemma kept_update_value:
  "step_event (Enqueue update_call) kept_create =
     \<lparr>w_queue = \<lparr>queue_blob = Some
        [op_a, \<lparr>op_id = ''5-e'', op_type = CREATE, entity = container, entityId = ''temp-7'',
                data = PObj Map.empty, timestamp = 50, retries = 0\<rparr>], isSyncing = False\<rparr>,
      w_net = networkStatus, w_ext = (), w_trace = []\<rparr>"
proof -
  have m: "stringify (shallow_merge PNull DNull) = PObj Map.empty"
    by (auto simp: stringify_def shallow_merge_def)
  show ?thesis
    by (simp add: kept_create_value update_call_def enqueue_def addToQueue_def same_entity_def
          op_a_def m saveQueue_def)
qed

lemma kept_pending_value:
  "kept_pending =
     \<lparr>w_queue = \<lparr>queue_blob = Some
        [op_a\<lparr>retries := 1\<rparr>,
         \<lparr>op_id = ''5-e'', op_type = CREATE, entity = container, entityId = ''temp-7'',
          data = PObj Map.empty, timestamp = 50, retries = 1\<rparr>], isSyncing = False\<rparr>,
      w_net = networkStatus, w_ext = (),
      w_trace = [op_a, \<lparr>op_id = ''5-e'', op_type = CREATE, entity = container,
                        entityId = ''temp-7'', data = PObj Map.empty, timestamp = 50,
                        retries = 0\<rparr>]\<rparr>"
proof -
  have "kept_pending =
          step_event (Drain never_handles (Some True)) (step_event (Enqueue update_call) kept_create)"
    by (simp add: kept_pending_def update_and_one_pass_def run_events_def del: step_event.simps)
  then show ?thesis
    unfolding kept_update_value
    by (simp add: processQueue_def checkConnection_def or_false_def Let_def never_handles_def
          process_operation_def saveQueue_def op_a_def networkStatus_def)
qed

theorem create_then_delete_cancels_witness:
  "(container, ''temp-7'') \<notin> set (map slot (getQueue (queue_blob (w_queue world_a))))
   \<and> distinct (map op_id (getQueue (queue_blob (w_queue world_a))))
   \<and> call_newId create_call \<notin> set (map op_id (getQueue (queue_blob (w_queue world_a))))
   \<and> getQueue (queue_blob (w_queue kept_pending)) =
       [op_a\<lparr>retries := 1\<rparr>,
        \<lparr>op_id = ''5-e'', op_type = CREATE, entity = container, entityId = ''temp-7'',
         data = PObj Map.empty, timestamp = 50, retries = 1\<rparr>]
   \<and> pending_create container ''temp-7'' (getQueue (queue_blob (w_queue kept_pending)))
   \<and> getQueue (queue_blob (w_queue kept_delete)) = [op_a\<lparr>retries := 1\<rparr>]
   \<and> (container, ''temp-7'') \<notin> set (map slot (getQueue (queue_blob (w_queue kept_delete))))"
proof -
  have h1: "(container, ''temp-7'') \<notin> set (map slot (getQueue (queue_blob (w_queue world_a))))"
    by (simp add: world_a_def slot_def op_a_def)
  have h2: "distinct (map op_id (getQueue (queue_blob (w_queue world_a))))"
    by (simp add: world_a_def)
  have h3: "''5-e'' \<notin> set (map op_id (getQueue (queue_blob (w_queue world_a))))"
    by (simp add: world_a_def op_a_def)
  then have h3c: "call_newId create_call \<notin> set (map op_id (getQueue (queue_blob (w_queue world_a))))"
    by (simp add: create_call_def)
  have w1: "kept_create = step_event (Enqueue \<lparr>call_newId = ''5-e'', call_now = 50,
              call_type = CREATE, call_entity = container, call_entityId = ''temp-7'',
              call_data = DNull\<rparr>) world_a"
    by (simp add: kept_create_def create_call_def)
  have w3: "kept_delete = step_event (Enqueue \<lparr>call_newId = ''9-z'', call_now = 90,
              call_type = DELETE, call_entity = container, call_entityId = ''temp-7'',
              call_data = DNull\<rparr>) kept_pending"
    by (simp add: kept_delete_def delete_call_def)
  have s1: "event_spares container ''temp-7'' (Enqueue update_call) kept_create"
    by (simp add: kept_create_value update_call_def op_a_def)
  have s2: "event_spares container ''temp-7'' (Drain never_handles (Some True))
              (step_event (Enqueue update_call) kept_create)"
    unfolding kept_update_value
    by (simp add: never_handles_def op_a_def same_entity_def)
  have mid: "run_spares container ''temp-7'' update_and_one_pass kept_create"
    unfolding update_and_one_pass_def using s1 s2
    by (simp del: step_event.simps event_spares.simps)
  note t = create_then_delete_cancels[OF h1 h2 h3 w1 mid kept_pending_def w3]
  have kq: "getQueue (queue_blob (w_queue kept_pending)) =
       [op_a\<lparr>retries := 1\<rparr>,
        \<lparr>op_id = ''5-e'', op_type = CREATE, entity = container, entityId = ''temp-7'',
         data = PObj Map.empty, timestamp = 50, retries = 1\<rparr>]"
    by (simp add: kept_pending_value)
  from t have p2: "pending_create container ''temp-7'' (getQueue (queue_blob (w_queue kept_pending)))"
    by blast
  from t have "getQueue (queue_blob (w_queue kept_delete)) =
           filter (\<lambda>operation. \<not> same_entity container ''temp-7'' operation)
             (getQueue (queue_blob (w_queue kept_pending)))"
    by blast
  then have q3: "getQueue (queue_blob (w_queue kept_delete)) = [op_a\<lparr>retries := 1\<rparr>]"
    unfolding kq by (simp add: same_entity_def op_a_def)
  from t have gone: "(container, ''temp-7'') \<notin> set (map slot (getQueue (queue_blob (w_queue kept_delete))))"
    by blast
  from h1 h2 h3c kq p2 q3 gone show ?thesis by blast
qed

text \<open>
  C2 as stated fails. On an empty queue a CREATE for the pair is enqueued; three
  drain passes follow in which the executor returns \<^verbatim>\<open>false\<close>, so that no pass
  is successful and the third removes the CREATE at retry counter 3; the DELETE
  for the pair then finds nothing to cancel and is queued itself.
\<close>

theorem delete_after_exhausted_create:
  "getQueue (queue_blob (w_queue after_create)) =
     [\<lparr>op_id = ''5-e'', op_type = CREATE, entity = container, entityId = ''temp-7'',
       data = PNull, timestamp = 50, retries = 0\<rparr>]
   \<and> getQueue (queue_blob (w_queue after_failed_passes)) = []
   \<and> length (w_trace after_failed_passes) = 3
   \<and> getQueue (queue_blob (w_queue after_delete)) =
     [\<lparr>op_id = ''9-z'', op_type = DELETE, entity = container, entityId = ''temp-7'',
       data = PNull, timestamp = 90, retries = 0\<rparr>]
   \<and> (container, ''temp-7'') \<in> set (map slot (getQueue (queue_blob (w_queue after_delete))))"
proof -
  have c: "after_create =
     world_empty\<lparr>w_queue := \<lparr>queue_blob = Some
       [\<lparr>op_id = ''5-e'', op_type = CREATE, entity = container, entityId = ''temp-7'',
         data = PNull, timestamp = 50, retries = 0\<rparr>], isSyncing = False\<rparr>\<rparr>"
    by (simp add: after_create_def world_empty_def create_call_def enqueue_def addToQueue_def
          getQueue_def saveQueue_def stringify_def)
  have p: "after_failed_passes =
     \<lparr>w_queue = \<lparr>queue_blob = Some [], isSyncing = False\<rparr>, w_net = networkStatus,
      w_ext = (),
      w_trace =
        [\<lparr>op_id = ''5-e'', op_type = CREATE, entity = container, entityId = ''temp-7'',
          data = PNull, timestamp = 50, retries = 0\<rparr>,
         \<lparr>op_id = ''5-e'', op_type = CREATE, entity = container, entityId = ''temp-7'',
          data = PNull, timestamp = 50, retries = 1\<rparr>,
         \<lparr>op_id = ''5-e'', op_type = CREATE, entity = container, entityId = ''temp-7'',
          data = PNull, timestamp = 50, retries = 2\<rparr>]\<rparr>"
    by (simp add: after_failed_passes_def three_failed_passes_def run_events_def c
          world_empty_def processQueue_def checkConnection_def or_false_def Let_def
          never_handles_def process_operation_def saveQueue_def removeFromQueue_def
          networkStatus_def)
  have d: "getQueue (queue_blob (w_queue after_delete)) =
     [\<lparr>op_id = ''9-z'', op_type = DELETE, entity = container, entityId = ''temp-7'',
       data = PNull, timestamp = 90, retries = 0\<rparr>]"
    by (simp add: after_delete_def p delete_call_def enqueue_def addToQueue_def
          saveQueue_def stringify_def)
  show ?thesis
    by (simp add: c p d slot_def)
qed

section \<open>The entity cache\<close>

lemma container_ids_update:
  "container_ids (offlineStorage_updateContainer ct c) = insert (c_id ct) (container_ids c)"
proof (cases "findIndex (\<lambda>x. c_id x = c_id ct) (offlineStorage_getContainers c)")
  case None
  then show ?thesis
    by (simp add: container_ids_def offlineStorage_updateContainer_def
          offlineStorage_setContainers_def offlineStorage_getContainers_def)
next
  case (Some i)
  let ?l = "offlineStorage_getContainers c"
  from findIndex_Some[OF Some] have i: "i < length ?l" "c_id (?l ! i) = c_id ct" by simp_all
  have "map c_id (?l[i := ct]) = map c_id ?l"
    using i by (simp add: map_update_same_key)
  then have "c_id ` set (?l[i := ct]) = c_id ` set ?l"
    by (metis set_map)
  moreover have "c_id ct \<in> c_id ` set ?l"
    using i by (metis imageI nth_mem)
  ultimately show ?thesis
    using Some
    by (auto simp: container_ids_def offlineStorage_updateContainer_def
          offlineStorage_setContainers_def offlineStorage_getContainers_def)
qed

lemma container_ids_delete:
  "container_ids (offlineStorage_deleteContainer cid c) = container_ids c - {cid}"
  by (auto simp: container_ids_def offlineStorage_deleteContainer_def removeContainerDetail_def
        offlineStorage_setContainers_def offlineStorage_getContainers_def Let_def
        split: option.splits)

lemma temp_id_not_inherited:
  "take 5 X = ''temp-'' \<Longrightarrow> X \<notin> set object_prototype_names"
  by (auto simp: object_prototype_names_def)

lemma deleteContainer_clears_collection:
  "X \<notin> container_ids (offlineStorage_deleteContainer X c)"
  by (simp add: container_ids_delete)

lemma deleteContainer_detail_read:
  "getContainerDetail X (offlineStorage_deleteContainer X c) =
     (if details_blob c \<noteq> None \<and> X \<in> set object_prototype_names then InheritedMember X
      else NoDetail)"
  by (simp add: getContainerDetail_def offlineStorage_deleteContainer_def
        removeContainerDetail_def offlineStorage_setContainers_def Let_def
        split: option.splits)

text \<open>
  The cascade holds for every identifier that is not the name of an inherited
  member, in particular for every temporary identifier.
\<close>

lemma detail_cascade_own:
  "X \<notin> set object_prototype_names \<Longrightarrow>
   getContainerDetail X (offlineStorage_deleteContainer X c) = NoDetail"
  by (simp add: deleteContainer_detail_read)


section \<open>The connectivity monitor\<close>

text \<open>
  Reports that arrive through the change feed call the listeners exactly when the
  value changes, and \<^verbatim>\<open>checkConnection\<close> never calls them.
\<close>

lemma change_feed_only_on_transition:
  "snd (net_step (NetInfoEvent report) m) =
     (if unsubscribe m \<and> or_false report \<noteq> isConnected m
      then map (\<lambda>l. (l, or_false report)) (listeners m) else [])"
  by (simp add: onNetInfoEvent_def notifyListeners_def Let_def)

lemma checkConnection_silent: "snd (net_step (CheckConnection probe) m) = []"
  by simp

text \<open>
  C9 fails on the seeding probe. A monitor in its initial state (reachable) with
  one subscriber is initialised, and the probe reports reachable: the state keeps
  its value and the subscriber is called all the same.
\<close>

theorem seeding_probe_notifies_unchanged:
  "isConnected (fst (addListener 0 networkStatus)) = or_false (Some True)
   \<and> isConnected (fst (net_step (Initialize (Some True)) (fst (addListener 0 networkStatus))))
       = isConnected (fst (addListener 0 networkStatus))
   \<and> snd (net_step (Initialize (Some True)) (fst (addListener 0 networkStatus))) = [(0, True)]"
  by (simp add: addListener_def networkStatus_def initialize_def onInitialFetch_def
        notifyListeners_def or_false_def Let_def)

section \<open>The write calls of the API layer in the offline case\<close>

lemma find_container_ids:
  "find (\<lambda>c. c_id c = cid) (offlineStorage_getContainers c) = None \<longleftrightarrow> cid \<notin> container_ids c"
  by (auto simp: find_None_iff container_ids_def)

lemma updateContainer_offline_result:
  "fst (updateContainer_offline ev cid d app) = Inl (JsError ''Container not found in cache'')
     \<longleftrightarrow> cid \<notin> container_ids (cache app)"
  "returns (fst (updateContainer_offline ev cid d app)) \<longleftrightarrow> cid \<in> container_ids (cache app)"
proof -
  let ?found = "find (\<lambda>c. c_id c = cid) (offlineStorage_getContainers (cache app))"
  show "fst (updateContainer_offline ev cid d app) = Inl (JsError ''Container not found in cache'')
     \<longleftrightarrow> cid \<notin> container_ids (cache app)"
  proof (cases ?found)
    case None
    then show ?thesis
      using find_container_ids[of cid "cache app"]
      by (simp add: updateContainer_offline_def Let_def)
  next
    case (Some a)
    then show ?thesis
      using find_container_ids[of cid "cache app"]
      by (simp add: updateContainer_offline_def Let_def)
  qed
  show "returns (fst (updateContainer_offline ev cid d app)) \<longleftrightarrow> cid \<in> container_ids (cache app)"
  proof (cases ?found)
    case None
    then show ?thesis
      using find_container_ids[of cid "cache app"]
      by (simp add: updateContainer_offline_def Let_def returns_def)
  next
    case (Some a)
    then show ?thesis
      using find_container_ids[of cid "cache app"]
      by (simp add: updateContainer_offline_def Let_def returns_def)
  qed
qed

lemma offline_case_updateContainer:
  "offline_case app resp \<Longrightarrow>
   api_updateContainer ev resp cid d app = updateContainer_offline ev cid d app"
  by (auto simp: offline_case_def api_updateContainer_def split: if_splits sum.splits)

text \<open>
  C7, as the code has it. In the offline case \<^verbatim>\<open>createContainer\<close>,
  \<^verbatim>\<open>deleteContainer\<close>, \<^verbatim>\<open>updateItem\<close> and \<^verbatim>\<open>deleteItem\<close> return and do not
  throw. \<^verbatim>\<open>updateContainer\<close> returns exactly when the identifier is in the cached
  collection; for any other identifier it throws
  \<^verbatim>\<open>Error('Container not found in cache')\<close>.
\<close>

theorem offline_writes:
  "(offline_case app rc \<longrightarrow> returns (fst (api_createContainer ev rc cd app)))
   \<and> (offline_case app ru \<longrightarrow> returns (fst (api_deleteContainer ev ru cid app)))
   \<and> (offline_case app ri \<longrightarrow> returns (fst (api_updateItem ev ri iid ud app)))
   \<and> (offline_case app ru \<longrightarrow> returns (fst (api_deleteItem ev ru iid app)))
   \<and> (offline_case app rc \<longrightarrow>
        (returns (fst (api_updateContainer ev rc cid pd app)) \<longleftrightarrow> cid \<in> container_ids (cache app)))
   \<and> (offline_case app rc \<longrightarrow> cid \<notin> container_ids (cache app) \<longrightarrow>
        fst (api_updateContainer ev rc cid pd app) = Inl (JsError ''Container not found in cache''))"
proof -
  have c: "returns (fst (api_createContainer ev rc cd app))" if "offline_case app rc"
    using that
    by (auto simp: offline_case_def api_createContainer_def createContainer_offline_def
          returns_def Let_def split: if_splits sum.splits)
  have dc: "returns (fst (api_deleteContainer ev ru cid app))" if "offline_case app ru"
    using that
    by (auto simp: offline_case_def api_deleteContainer_def deleteContainer_offline_def
          returns_def Let_def split: if_splits sum.splits)
  have ui: "returns (fst (api_updateItem ev ri iid ud app))" if "offline_case app ri"
    using that
    by (auto simp: offline_case_def api_updateItem_def updateItem_offline_def
          returns_def split: if_splits sum.splits)
  have di: "returns (fst (api_deleteItem ev ru iid app))" if "offline_case app ru"
    using that
    by (auto simp: offline_case_def api_deleteItem_def returns_def split: if_splits sum.splits)
  have uc: "returns (fst (api_updateContainer ev rc cid pd app)) \<longleftrightarrow> cid \<in> container_ids (cache app)"
    if "offline_case app rc"
    by (simp add: offline_case_updateContainer[OF that] updateContainer_offline_result)
  have un: "fst (api_updateContainer ev rc cid pd app) = Inl (JsError ''Container not found in cache'')"
    if "offline_case app rc" "cid \<notin> container_ids (cache app)"
    using that(2) by (simp add: offline_case_updateContainer[OF that(1)] updateContainer_offline_result)
  from c dc ui di uc un show ?thesis by blast
qed

lemma app_created_value:
  "app_created =
     \<lparr>cache = \<lparr>containers_blob = Some
          [\<lparr>c_id = ''temp-7-abc'', c_name = ''Box'', c_location = ''A1'', c_row = 1,
            c_column = ''A'', c_description = None, c_qrCode = ''temp-qr-temp-7-abc'',
            c_color = None, c_itemCount = 0, c_parentId = None, c_parentName = None,
            c_teamId = None, c_teamName = None,
            c_createdAt = ''2026-01-01T00:00:00.000Z'',
            c_updatedAt = ''2026-01-01T00:00:00.000Z''\<rparr>],
        details_blob = None\<rparr>,
      sq = \<lparr>queue_blob = Some [create_op], isSyncing = False\<rparr>,
      net = networkStatus\<lparr>isConnected := False\<rparr>\<rparr>"
proof -
  have s7: "show_int 7 = ''7''" and s8: "show_int 8 = ''8''" and s1: "show_int 1 = ''1''"
    by (simp_all add: show_int_def show_nat.simps digit_of_def)
  show ?thesis
    by (simp add: app_created_def api_createContainer_def createContainer_offline_def
          getIsConnected_def app_offline_def env0_def dto0_def net_down_def
          generateTempId_def generateId_def s7 s8 s1 or_null_def read_field_def enqueue_op_def
          offlineStorage_updateContainer_def offlineStorage_getContainers_def
          offlineStorage_setContainers_def addToQueue_def getQueue_def saveQueue_def
          create_op_def Let_def)
qed

theorem offline_writes_witness:
  "offline_case app_created (Inl net_down :: thrown + Container)
   \<and> offline_case app_created (Inl net_down :: thrown + unit)
   \<and> offline_case app_created (Inl net_down :: thrown + Item)
   \<and> ''temp-7-abc'' \<in> container_ids (cache app_created)
   \<and> ''c1'' \<notin> container_ids (cache app_created)
   \<and> returns (fst (api_createContainer env0 (Inl net_down) dto0 app_created))
   \<and> returns (fst (api_deleteContainer env0 (Inl net_down) ''temp-7-abc'' app_created))
   \<and> returns (fst (api_updateItem env0 (Inl net_down) ''i1'' udto0 app_created))
   \<and> returns (fst (api_deleteItem env0 (Inl net_down) ''i1'' app_created))
   \<and> returns (fst (api_updateContainer env0 (Inl net_down) ''temp-7-abc'' pdto0 app_created))
   \<and> fst (api_updateContainer env0 (Inl net_down) ''c1'' pdto0 app_created)
       = Inl (JsError ''Container not found in cache'')"
proof -
  have o1: "offline_case app_created (Inl net_down :: thrown + Container)"
    and o2: "offline_case app_created (Inl net_down :: thrown + unit)"
    and o3: "offline_case app_created (Inl net_down :: thrown + Item)"
    by (simp_all add: offline_case_def app_created_value getIsConnected_def)
  have m1: "''temp-7-abc'' \<in> container_ids (cache app_created)"
    and m2: "''c1'' \<notin> container_ids (cache app_created)"
    by (simp_all add: app_created_value container_ids_def offlineStorage_getContainers_def)
  from o1 o2 o3 m1 m2
    offline_writes[of app_created "Inl net_down" env0 dto0 "Inl net_down" "''temp-7-abc''"
      "Inl net_down" "''i1''" udto0 pdto0]
    offline_writes[of app_created "Inl net_down" env0 dto0 "Inl net_down" "''c1''"
      "Inl net_down" "''i1''" udto0 pdto0]
  show ?thesis by blast
qed

text \<open>
  C7 as stated fails: with connectivity known to be absent and an empty cached
  collection, \<^verbatim>\<open>updateContainer\<close> throws.
\<close>

theorem updateContainer_offline_throws:
  "offline_case app_offline (Inl net_down :: thrown + Container)
   \<and> \<not> returns (fst (api_updateContainer env0 (Inl net_down) ''c1'' pdto0 app_offline))
   \<and> fst (api_updateContainer env0 (Inl net_down) ''c1'' pdto0 app_offline)
       = Inl (JsError ''Container not found in cache'')"
  by (simp add: offline_case_def api_updateContainer_def updateContainer_offline_def
        app_offline_def getIsConnected_def offlineStorage_getContainers_def returns_def)

section \<open>Deleting a temporary container while offline, and the replay afterwards\<close>

lemma offline_case_deleteContainer:
  "offline_case app resp \<Longrightarrow>
   api_deleteContainer ev resp cid app = deleteContainer_offline ev cid app"
  by (auto simp: offline_case_def api_deleteContainer_def split: if_splits sum.splits)

lemma sync_executor_create:
  assumes "entity operation = container" and "op_type operation = CREATE"
    and "post_containers remote (data operation) = Inr srv"
  shows "sync_executor remote c operation =
     (Returned True,
      offlineStorage_updateContainer srv (offlineStorage_deleteContainer (entityId operation) c))"
  using assms by (simp add: sync_executor_def)

lemma sync_executor_keeps_id:
  assumes "k \<in> container_ids c" and "entityId operation \<noteq> k"
  shows "k \<in> container_ids (snd (sync_executor remote c operation))"
  using assms
  by (auto simp: sync_executor_def container_ids_update container_ids_delete
        split: SyncEntityType.splits sum.splits)

lemma process_loop_ext_keeps_id:
  assumes "\<forall>o1 \<in> set ops. entityId o1 \<noteq> k" and "k \<in> container_ids (ds_ext st)"
  shows "k \<in> container_ids (ds_ext (process_loop (sync_executor remote) ops st))"
  using assms
proof (induction ops arbitrary: st)
  case Nil
  then show ?case by simp
next
  case (Cons o1 rest)
  have "k \<in> container_ids (ds_ext (process_operation (sync_executor remote) o1 st))"
    using Cons.prems by (simp add: process_operation_ext sync_executor_keeps_id)
  with Cons.IH[of "process_operation (sync_executor remote) o1 st"] Cons.prems(1)
  show ?case by simp
qed

lemma process_loop_replays_create:
  assumes "operation \<in> set ops"
    and "entity operation = container" and "op_type operation = CREATE"
    and "post_containers remote (data operation) = Inr srv"
    and "\<forall>o1 \<in> set ops. entityId o1 \<noteq> c_id srv"
  shows "c_id srv \<in> container_ids (ds_ext (process_loop (sync_executor remote) ops st))"
  using assms(1,5)
proof (induction ops arbitrary: st)
  case Nil
  then show ?case by simp
next
  case (Cons o1 rest)
  show ?case
  proof (cases "o1 = operation")
    case True
    have "c_id srv \<in> container_ids (ds_ext (process_operation (sync_executor remote) o1 st))"
      by (simp add: True process_operation_ext sync_executor_create[OF assms(2,3,4)]
            container_ids_update)
    with Cons.prems(2) show ?thesis
      by (simp add: process_loop_ext_keeps_id)
  next
    case False
    with Cons.prems have "operation \<in> set rest" "\<forall>o2 \<in> set rest. entityId o2 \<noteq> c_id srv"
      by simp_all
    from Cons.IH[OF this] show ?thesis by simp
  qed
qed

text \<open>
  C8. A container with a temporary identifier is deleted through the API layer
  in the offline case while its CREATE is pending in the queue. The call returns,
  the cached collection and the detail cache no longer hold the identifier, and
  the sync queue is left exactly as it was, so the CREATE is still pending and no
  DELETE was enqueued. In a later drain pass in which the remote create succeeds
  with a container \<open>srv\<close> (whose identifier is the target of no queued operation),
  the executor is invoked on that CREATE and afterwards the cached collection
  holds a container with the identifier of \<open>srv\<close>.
\<close>

theorem temp_delete_leaves_create_pending:
  assumes temp: "take 5 cid = ''temp-''"
    and off: "offline_case app resp"
    and pending: "operation \<in> set (getQueue (queue_blob (sq app)))"
    and kind: "op_type operation = CREATE" "entity operation = container"
      "entityId operation = cid"
    and del: "app' = snd (api_deleteContainer ev resp cid app)"
    and idle: "\<not> isSyncing (sq app)" and conn: "or_false probe"
    and ok: "post_containers remote (data operation) = Inr srv"
    and other: "\<forall>o1 \<in> set (getQueue (queue_blob (sq app))). entityId o1 \<noteq> c_id srv"
    and drain: "r = processSyncQueue remote probe app'"
  shows "fst (api_deleteContainer ev resp cid app) = Inr ()
       \<and> cid \<notin> container_ids (cache app')
       \<and> getContainerDetail cid (cache app') = NoDetail
       \<and> sq app' = sq app
       \<and> operation \<in> set (getQueue (queue_blob (sq app')))
       \<and> operation \<in> set (dr_trace r)
       \<and> c_id srv \<in> container_ids (dr_ext r)"
proof -
  have call: "api_deleteContainer ev resp cid app =
                (Inr (), app\<lparr>cache := offlineStorage_deleteContainer cid (cache app)\<rparr>)"
    using temp by (simp add: offline_case_deleteContainer[OF off] deleteContainer_offline_def Let_def)
  then have app': "app' = app\<lparr>cache := offlineStorage_deleteContainer cid (cache app)\<rparr>"
    using del by simp
  have gone: "cid \<notin> container_ids (cache app')" "getContainerDetail cid (cache app') = NoDetail"
    using deleteContainer_clears_collection[of cid "cache app"]
      detail_cascade_own[OF temp_id_not_inherited[OF temp], of "cache app"]
    by (simp_all add: app')
  have same: "sq app' = sq app" by (simp add: app')
  let ?ops = "sort_key timestamp (getQueue (queue_blob (sq app)))"
  let ?init = "\<lparr>ds_blob = queue_blob (sq app), ds_success = 0, ds_failed = 0,
                ds_ext = cache app', ds_trace = []\<rparr>"
  have idle': "\<not> isSyncing (sq app')" using idle by (simp add: same)
  have run: "dr_trace r = ?ops"
    "dr_ext r = ds_ext (process_loop (sync_executor remote) ?ops ?init)"
    unfolding drain processSyncQueue_def processQueue_runs[OF idle' conn]
    by (simp_all add: Let_def same process_loop_trace)
  have m: "operation \<in> set ?ops" using pending by simp
  have o: "\<forall>o1 \<in> set ?ops. entityId o1 \<noteq> c_id srv" using other by simp
  have again: "c_id srv \<in> container_ids (dr_ext r)"
    unfolding run by (rule process_loop_replays_create[OF m kind(2) kind(1) ok o])
  from call gone same pending m run(1) again show ?thesis by simp
qed

theorem temp_delete_leaves_create_pending_witness:
  "take 5 ''temp-7-abc'' = ''temp-''
   \<and> offline_case app_created (Inl net_down :: thrown + unit)
   \<and> create_op \<in> set (getQueue (queue_blob (sq app_created)))
   \<and> op_type create_op = CREATE \<and> entity create_op = container
   \<and> entityId create_op = ''temp-7-abc''
   \<and> \<not> isSyncing (sq app_created) \<and> or_false (Some True)
   \<and> post_containers remote_ok (data create_op) = Inr srv_box
   \<and> getQueue (queue_blob (sq app_created)) = [create_op]
   \<and> entityId create_op \<noteq> c_id srv_box
   \<and> fst (api_deleteContainer env0 (Inl net_down) ''temp-7-abc'' app_created) = Inr ()
   \<and> ''temp-7-abc'' \<notin> container_ids (cache app_deleted)
   \<and> sq app_deleted = sq app_created
   \<and> create_op \<in> set (dr_trace replay)
   \<and> c_id srv_box \<in> container_ids (dr_ext replay)"
proof -
  have h1: "take 5 ''temp-7-abc'' = ''temp-''" by simp
  have h2: "offline_case app_created (Inl net_down :: thrown + unit)"
    by (simp add: offline_case_def app_created_value getIsConnected_def)
  have h3: "create_op \<in> set (getQueue (queue_blob (sq app_created)))"
    by (simp add: app_created_value)
  have h4: "op_type create_op = CREATE" and h5: "entity create_op = container"
    and h6: "entityId create_op = ''temp-7-abc''"
    by (simp_all add: create_op_def)
  have h7: "\<not> isSyncing (sq app_created)" by (simp add: app_created_value)
  have h8: "or_false (Some True)" by (simp add: or_false_def)
  have h9: "post_containers remote_ok (data create_op) = Inr srv_box"
    by (simp add: remote_ok_def)
  have h10: "\<forall>o1 \<in> set (getQueue (queue_blob (sq app_created))). entityId o1 \<noteq> c_id srv_box"
    by (simp add: app_created_value create_op_def srv_box_def)
  have h11: "getQueue (queue_blob (sq app_created)) = [create_op]"
    by (simp add: app_created_value)
  have h12: "entityId create_op \<noteq> c_id srv_box"
    by (simp add: create_op_def srv_box_def)
  from temp_delete_leaves_create_pending[OF h1 h2 h3 h4 h5 h6 app_deleted_def h7 h8 h9 h10
         replay_def]
    h1 h2 h3 h4 h5 h6 h7 h8 h9 h11 h12
  show ?thesis by blast
qed

end
